theory Spec2Isabelle
  imports Main "HOL-Library.Word" "HOL-Library.List_Lexorder"
begin

section \<open>Bytes and the C library functions the code calls\<close>

text \<open>
  Bytes are values of type \<open>char\<close> and byte spans are \<open>string\<close>s. The functions of
  this section belong to the C library and to GLib, not to the repository; they are
  written out as their manuals describe them, for the \<open>C\<close> locale.
\<close>

definition NUL :: char where
  "NUL = CHR 0x00"

definition g_ascii_isspace :: "char \<Rightarrow> bool" where
  "g_ascii_isspace c =
     (c = CHR '' '' \<or> c = CHR 0x09 \<or> c = CHR 0x0A \<or> c = CHR 0x0C \<or> c = CHR 0x0D)"

text \<open>\<open>isspace\<close> of the C library also accepts the vertical tab.\<close>

definition isspace :: "char \<Rightarrow> bool" where
  "isspace c = (g_ascii_isspace c \<or> c = CHR 0x0B)"

definition g_ascii_isdigit :: "char \<Rightarrow> bool" where
  "g_ascii_isdigit c = (let n = of_char c :: nat in 48 \<le> n \<and> n \<le> 57)"


definition g_ascii_tolower :: "char \<Rightarrow> char" where
  "g_ascii_tolower c =
     (let n = of_char c :: nat in if 65 \<le> n \<and> n \<le> 90 then char_of (n + 32) else c)"

text \<open>
  \<open>g_ascii_strcasecmp\<close> on two C strings (the lists hold the bytes before the
  terminating NUL): the difference of the first pair of bytes that differ after
  lowering, the terminator counting as 0.
\<close>

fun g_ascii_strcasecmp :: "string \<Rightarrow> string \<Rightarrow> int" where
  "g_ascii_strcasecmp [] [] = 0"
| "g_ascii_strcasecmp [] (b # d) = - int (of_char b)"
| "g_ascii_strcasecmp (a # s) [] = int (of_char a)"
| "g_ascii_strcasecmp (a # s) (b # d) =
     (let c1 = int (of_char (g_ascii_tolower a)); c2 = int (of_char (g_ascii_tolower b))
      in if c1 \<noteq> c2 then c1 - c2 else g_ascii_strcasecmp s d)"

text \<open>The value of a digit of \<open>strtoul\<close>: decimal digits, then letters of either case.\<close>

definition digit_val :: "char \<Rightarrow> nat option" where
  "digit_val c =
     (let n = of_char c :: nat in
      if 48 \<le> n \<and> n \<le> 57 then Some (n - 48)
      else if 97 \<le> n \<and> n \<le> 122 then Some (n - 87)
      else if 65 \<le> n \<and> n \<le> 90 then Some (n - 55)
      else None)"

fun strtoul_digits :: "nat \<Rightarrow> string \<Rightarrow> nat \<Rightarrow> nat \<Rightarrow> nat \<times> nat" where
  "strtoul_digits base [] acc n = (acc, n)"
| "strtoul_digits base (c # cs) acc n =
     (case digit_val c of
        None \<Rightarrow> (acc, n)
      | Some d \<Rightarrow> if d < base then strtoul_digits base cs (acc * base + d) (Suc n) else (acc, n))"

definition ULONG_MAX :: nat where
  "ULONG_MAX = 2 ^ 64 - 1"

text \<open>
  \<open>strtoul str base\<close> for a base of 8, 10 or 16 on an LP64 platform. The result is the
  converted value and the offset of \<open>end_ptr\<close> in \<open>str\<close>: leading white space, an
  optional sign, for base 16 an optional \<open>0x\<close> in front of a hexadecimal digit, then
  the digits. Without a digit nothing is converted and \<open>end_ptr\<close> is \<open>str\<close> itself. A
  value that does not fit is \<open>ULONG_MAX\<close>; a minus sign negates modulo \<open>2 ^ 64\<close>.
\<close>

definition strtoul :: "string \<Rightarrow> nat \<Rightarrow> nat \<times> nat" where
  "strtoul str base =
     (let ws = length (takeWhile isspace str);
          r1 = drop ws str;
          neg = (r1 \<noteq> [] \<and> hd r1 = CHR ''-'');
          sg = (if r1 \<noteq> [] \<and> (hd r1 = CHR ''-'' \<or> hd r1 = CHR ''+'') then 1 else 0);
          r2 = drop sg r1;
          px = (if base = 16 \<and> length r2 \<ge> 3 \<and> hd r2 = CHR ''0''
                   \<and> (r2 ! 1 = CHR ''x'' \<or> r2 ! 1 = CHR ''X'')
                   \<and> (case digit_val (r2 ! 2) of None \<Rightarrow> False | Some d \<Rightarrow> d < 16)
                then 2 else 0);
          r3 = drop px r2;
          vn = strtoul_digits base r3 0 0
      in if snd vn = 0 then (0, 0)
         else (if fst vn > ULONG_MAX then ULONG_MAX
               else if neg then (2 ^ 64 - fst vn) mod 2 ^ 64
               else fst vn,
               ws + sg + px + snd vn))"

text \<open>
  \<open>g_unichar_to_utf8\<close> of GLib: the bytes it stores for a 32-bit code point (one to six
  of them; GLib does not reject values beyond Unicode).
\<close>

definition utf8_cont :: "nat \<Rightarrow> nat \<Rightarrow> char" where
  "utf8_cont c k = char_of (((c div 64 ^ k) mod 64) + 128)"

definition g_unichar_to_utf8 :: "nat \<Rightarrow> string" where
  "g_unichar_to_utf8 c =
     (if c < 0x80 then [char_of c]
      else if c < 0x800 then [char_of (c div 64 + 0xC0), utf8_cont c 0]
      else if c < 0x10000 then [char_of (c div 64 ^ 2 + 0xE0), utf8_cont c 1, utf8_cont c 0]
      else if c < 0x200000 then
        [char_of (c div 64 ^ 3 + 0xF0), utf8_cont c 2, utf8_cont c 1, utf8_cont c 0]
      else if c < 0x4000000 then
        [char_of (c div 64 ^ 4 + 0xF8), utf8_cont c 3, utf8_cont c 2, utf8_cont c 1,
         utf8_cont c 0]
      else
        [char_of (c div 64 ^ 5 + 0xFC), utf8_cont c 4, utf8_cont c 3, utf8_cont c 2,
         utf8_cont c 1, utf8_cont c 0])"

subsection \<open>\<open>qsort\<close> and \<open>bsearch\<close>\<close>

text \<open>
  \<open>bsearch\<close> halves the interval \<open>[l, u)\<close> of the array as the C library does and
  returns the element at which the comparison function answers 0. The comparison
  function receives the key first and the array element second.
\<close>

function bsearch_loop :: "('k \<Rightarrow> 'a \<Rightarrow> int) \<Rightarrow> 'k \<Rightarrow> 'a list \<Rightarrow> nat \<Rightarrow> nat \<Rightarrow> 'a option" where
  "bsearch_loop cmp key base l u =
     (if l < u then
        (let idx = (l + u) div 2; c = cmp key (base ! idx) in
         if c < 0 then bsearch_loop cmp key base l idx
         else if c > 0 then bsearch_loop cmp key base (idx + 1) u
         else Some (base ! idx))
      else None)"
  by pat_completeness auto
termination
  by (relation "measure (\<lambda>(cmp, key, base, l, u). u - l)") auto

definition bsearch :: "('k \<Rightarrow> 'a \<Rightarrow> int) \<Rightarrow> 'k \<Rightarrow> 'a list \<Rightarrow> 'a option" where
  "bsearch cmp key base = bsearch_loop cmp key base 0 (length base)"

text \<open>
  \<open>qsort\<close> returns the array sorted by the comparison function. The C standard leaves
  the order of elements that compare equal open; the model is an insertion sort, which
  keeps them in their original order.
\<close>

fun qsort_insert :: "('a \<Rightarrow> 'a \<Rightarrow> int) \<Rightarrow> 'a \<Rightarrow> 'a list \<Rightarrow> 'a list" where
  "qsort_insert cmp x [] = [x]"
| "qsort_insert cmp x (y # ys) =
     (if cmp x y \<le> 0 then x # y # ys else y # qsort_insert cmp x ys)"

definition qsort :: "('a \<Rightarrow> 'a \<Rightarrow> int) \<Rightarrow> 'a list \<Rightarrow> 'a list" where
  "qsort cmp xs = foldr (qsort_insert cmp) xs []"

section \<open>The entity table and \<open>rspamd_html_decode_entitles_inplace\<close> (libserver/html.c)\<close>

record entity =
  name :: string
  code :: nat
  replacement :: "string option"

definition ENT :: "string \<Rightarrow> nat \<Rightarrow> string option \<Rightarrow> entity" where
  "ENT n c r = \<lparr>name = n, code = c, replacement = r\<rparr>"

text \<open>The table \<open>entities_defs\<close> in the order of the source; \<open>None\<close> is \<open>NULL\<close>.\<close>

definition entities_defs :: "entity list" where
  "entities_defs = [
   ENT ''quot'' 34 (Some [CHR 0x22]), ENT ''amp'' 38 (Some ''&''),
   ENT ''apos'' 39 (Some [CHR 0x27]), ENT ''lt'' 60 (Some ''<''),
   ENT ''gt'' 62 (Some ''>''), ENT ''nbsp'' 160 (Some '' ''),
   ENT ''iexcl'' 161 (Some ''!''), ENT ''cent'' 162 (Some ''cent''),
   ENT ''pound'' 163 (Some ''pound''), ENT ''curren'' 164 (Some ''current''),
   ENT ''yen'' 165 (Some ''yen''), ENT ''brvbar'' 166 None,
   ENT ''sect'' 167 None, ENT ''uml'' 168 (Some ''uml''),
   ENT ''copy'' 169 (Some ''c''), ENT ''ordf'' 170 None,
   ENT ''laquo'' 171 (Some [CHR 0x22]), ENT ''not'' 172 (Some ''!''),
   ENT ''shy'' 173 None, ENT ''reg'' 174 (Some ''r''),
   ENT ''macr'' 175 None, ENT ''deg'' 176 (Some ''deg''),
   ENT ''plusmn'' 177 (Some ''+-''), ENT ''sup2'' 178 (Some ''2''),
   ENT ''sup3'' 179 (Some ''3''), ENT ''acute'' 180 None,
   ENT ''micro'' 181 None, ENT ''para'' 182 None,
   ENT ''middot'' 183 (Some ''.''), ENT ''cedil'' 184 None,
   ENT ''sup1'' 185 (Some ''1''), ENT ''ordm'' 186 None,
   ENT ''raquo'' 187 (Some [CHR 0x22]), ENT ''frac14'' 188 (Some ''1/4''),
   ENT ''frac12'' 189 (Some ''1/2''), ENT ''frac34'' 190 (Some ''3/4''),
   ENT ''iquest'' 191 (Some ''i''), ENT ''Agrave'' 192 (Some ''a''),
   ENT ''Aacute'' 193 (Some ''a''), ENT ''Acirc'' 194 (Some ''a''),
   ENT ''Atilde'' 195 (Some ''a''), ENT ''Auml'' 196 (Some ''a''),
   ENT ''Aring'' 197 (Some ''a''), ENT ''AElig'' 198 (Some ''a''),
   ENT ''Ccedil'' 199 (Some ''c''), ENT ''Egrave'' 200 (Some ''e''),
   ENT ''Eacute'' 201 (Some ''e''), ENT ''Ecirc'' 202 (Some ''e''),
   ENT ''Euml'' 203 (Some ''e''), ENT ''Igrave'' 204 (Some ''i''),
   ENT ''Iacute'' 205 (Some ''i''), ENT ''Icirc'' 206 (Some ''i''),
   ENT ''Iuml'' 207 (Some ''i''), ENT ''ETH'' 208 (Some ''e''),
   ENT ''Ntilde'' 209 (Some ''n''), ENT ''Ograve'' 210 (Some ''o''),
   ENT ''Oacute'' 211 (Some ''o''), ENT ''Ocirc'' 212 (Some ''o''),
   ENT ''Otilde'' 213 (Some ''o''), ENT ''Ouml'' 214 (Some ''o''),
   ENT ''times'' 215 (Some ''t''), ENT ''Oslash'' 216 (Some ''o''),
   ENT ''Ugrave'' 217 (Some ''u''), ENT ''Uacute'' 218 (Some ''u''),
   ENT ''Ucirc'' 219 (Some ''u''), ENT ''Uuml'' 220 (Some ''u''),
   ENT ''Yacute'' 221 (Some ''y''), ENT ''THORN'' 222 (Some ''t''),
   ENT ''szlig'' 223 (Some ''s''), ENT ''agrave'' 224 (Some ''a''),
   ENT ''aacute'' 225 (Some ''a''), ENT ''acirc'' 226 (Some ''a''),
   ENT ''atilde'' 227 (Some ''a''), ENT ''auml'' 228 (Some ''a''),
   ENT ''aring'' 229 (Some ''a''), ENT ''aelig'' 230 (Some ''a''),
   ENT ''ccedil'' 231 (Some ''c''), ENT ''egrave'' 232 (Some ''e''),
   ENT ''eacute'' 233 (Some ''e''), ENT ''ecirc'' 234 (Some ''e''),
   ENT ''euml'' 235 (Some ''e''), ENT ''igrave'' 236 (Some ''e''),
   ENT ''iacute'' 237 (Some ''e''), ENT ''icirc'' 238 (Some ''e''),
   ENT ''iuml'' 239 (Some ''e''), ENT ''eth'' 240 (Some ''e''),
   ENT ''ntilde'' 241 (Some ''n''), ENT ''ograve'' 242 (Some ''o''),
   ENT ''oacute'' 243 (Some ''o''), ENT ''ocirc'' 244 (Some ''o''),
   ENT ''otilde'' 245 (Some ''o''), ENT ''ouml'' 246 (Some ''o''),
   ENT ''divide'' 247 (Some ''/''), ENT ''oslash'' 248 (Some ''/''),
   ENT ''ugrave'' 249 (Some ''u''), ENT ''uacute'' 250 (Some ''u''),
   ENT ''ucirc'' 251 (Some ''u''), ENT ''uuml'' 252 (Some ''u''),
   ENT ''yacute'' 253 (Some ''y''), ENT ''thorn'' 254 (Some ''t''),
   ENT ''yuml'' 255 (Some ''y''), ENT ''fnof'' 402 (Some ''f''),
   ENT ''Alpha'' 913 (Some ''alpha''), ENT ''Beta'' 914 (Some ''beta''),
   ENT ''Gamma'' 915 (Some ''gamma''), ENT ''Delta'' 916 (Some ''delta''),
   ENT ''Epsilon'' 917 (Some ''epsilon''), ENT ''Zeta'' 918 (Some ''zeta''),
   ENT ''Eta'' 919 (Some ''eta''), ENT ''Theta'' 920 (Some ''theta''),
   ENT ''Iota'' 921 (Some ''iota''), ENT ''Kappa'' 922 (Some ''kappa''),
   ENT ''Lambda'' 923 (Some ''lambda''), ENT ''Mu'' 924 (Some ''mu''),
   ENT ''Nu'' 925 (Some ''nu''), ENT ''Xi'' 926 (Some ''xi''),
   ENT ''Omicron'' 927 (Some ''omicron''), ENT ''Pi'' 928 (Some ''pi''),
   ENT ''Rho'' 929 (Some ''rho''), ENT ''Sigma'' 931 (Some ''sigma''),
   ENT ''Tau'' 932 (Some ''tau''), ENT ''Upsilon'' 933 (Some ''upsilon''),
   ENT ''Phi'' 934 (Some ''phi''), ENT ''Chi'' 935 (Some ''chi''),
   ENT ''Psi'' 936 (Some ''psi''), ENT ''Omega'' 937 (Some ''omega''),
   ENT ''alpha'' 945 (Some ''alpha''), ENT ''beta'' 946 (Some ''beta''),
   ENT ''gamma'' 947 (Some ''gamma''), ENT ''delta'' 948 (Some ''delta''),
   ENT ''epsilon'' 949 (Some ''epsilon''), ENT ''zeta'' 950 (Some ''zeta''),
   ENT ''eta'' 951 (Some ''eta''), ENT ''theta'' 952 (Some ''theta''),
   ENT ''iota'' 953 (Some ''iota''), ENT ''kappa'' 954 (Some ''kappa''),
   ENT ''lambda'' 955 (Some ''lambda''), ENT ''mu'' 956 (Some ''mu''),
   ENT ''nu'' 957 (Some ''nu''), ENT ''xi'' 958 (Some ''xi''),
   ENT ''omicron'' 959 (Some ''omicron''), ENT ''pi'' 960 (Some ''pi''),
   ENT ''rho'' 961 (Some ''rho''), ENT ''sigmaf'' 962 (Some ''sigmaf''),
   ENT ''sigma'' 963 (Some ''sigma''), ENT ''tau'' 964 (Some ''tau''),
   ENT ''upsilon'' 965 (Some ''upsilon''), ENT ''phi'' 966 (Some ''phi''),
   ENT ''chi'' 967 (Some ''chi''), ENT ''psi'' 968 (Some ''psi''),
   ENT ''omega'' 969 (Some ''omega''), ENT ''thetasym'' 977 (Some ''thetasym''),
   ENT ''upsih'' 978 (Some ''upsih''), ENT ''piv'' 982 (Some ''piv''),
   ENT ''bull'' 8226 (Some ''bull''), ENT ''hellip'' 8230 (Some ''...''),
   ENT ''prime'' 8242 (Some [CHR 0x27]), ENT ''Prime'' 8243 (Some [CHR 0x27]),
   ENT ''oline'' 8254 (Some ''-''), ENT ''frasl'' 8260 None,
   ENT ''weierp'' 8472 None, ENT ''image'' 8465 None,
   ENT ''real'' 8476 None, ENT ''trade'' 8482 None,
   ENT ''alefsym'' 8501 (Some ''a''), ENT ''larr'' 8592 None,
   ENT ''uarr'' 8593 None, ENT ''rarr'' 8594 None,
   ENT ''darr'' 8595 None, ENT ''harr'' 8596 None,
   ENT ''crarr'' 8629 None, ENT ''lArr'' 8656 None,
   ENT ''uArr'' 8657 None, ENT ''rArr'' 8658 None,
   ENT ''dArr'' 8659 None, ENT ''hArr'' 8660 None,
   ENT ''forall'' 8704 None, ENT ''part'' 8706 None,
   ENT ''exist'' 8707 None, ENT ''empty'' 8709 None,
   ENT ''nabla'' 8711 None, ENT ''isin'' 8712 None,
   ENT ''notin'' 8713 None, ENT ''ni'' 8715 None,
   ENT ''prod'' 8719 None, ENT ''sum'' 8721 (Some ''E''),
   ENT ''minus'' 8722 (Some ''-''), ENT ''lowast'' 8727 None,
   ENT ''radic'' 8730 None, ENT ''prop'' 8733 None,
   ENT ''infin'' 8734 None, ENT ''ang'' 8736 (Some [CHR 0x27]),
   ENT ''and'' 8743 (Some ''&''), ENT ''or'' 8744 (Some ''|''),
   ENT ''cap'' 8745 None, ENT ''cup'' 8746 None,
   ENT ''gint'' 8747 None, ENT ''there4'' 8756 None,
   ENT ''sim'' 8764 None, ENT ''cong'' 8773 None,
   ENT ''asymp'' 8776 None, ENT ''ne'' 8800 (Some ''!=''),
   ENT ''equiv'' 8801 (Some ''==''), ENT ''le'' 8804 (Some ''<=''),
   ENT ''ge'' 8805 (Some ''>=''), ENT ''sub'' 8834 None,
   ENT ''sup'' 8835 None, ENT ''nsub'' 8836 None,
   ENT ''sube'' 8838 None, ENT ''supe'' 8839 None,
   ENT ''oplus'' 8853 None, ENT ''otimes'' 8855 None,
   ENT ''perp'' 8869 None, ENT ''sdot'' 8901 None,
   ENT ''lceil'' 8968 None, ENT ''rceil'' 8969 None,
   ENT ''lfloor'' 8970 None, ENT ''rfloor'' 8971 None,
   ENT ''lang'' 9001 None, ENT ''rang'' 9002 None,
   ENT ''loz'' 9674 None, ENT ''spades'' 9824 None,
   ENT ''clubs'' 9827 None, ENT ''hearts'' 9829 None,
   ENT ''diams'' 9830 None, ENT ''OElig'' 338 None,
   ENT ''oelig'' 339 None, ENT ''Scaron'' 352 None,
   ENT ''scaron'' 353 None, ENT ''Yuml'' 376 None,
   ENT ''circ'' 710 None, ENT ''tilde'' 732 None,
   ENT ''ensp'' 8194 None, ENT ''emsp'' 8195 None,
   ENT ''thinsp'' 8201 None, ENT ''zwnj'' 8204 None,
   ENT ''zwj'' 8205 None, ENT ''lrm'' 8206 None,
   ENT ''rlm'' 8207 None, ENT ''ndash'' 8211 (Some ''-''),
   ENT ''mdash'' 8212 (Some ''-''), ENT ''lsquo'' 8216 (Some [CHR 0x27]),
   ENT ''rsquo'' 8217 (Some [CHR 0x27]), ENT ''sbquo'' 8218 (Some [CHR 0x22]),
   ENT ''ldquo'' 8220 (Some [CHR 0x22]), ENT ''rdquo'' 8221 (Some [CHR 0x22]),
   ENT ''bdquo'' 8222 (Some [CHR 0x22]), ENT ''dagger'' 8224 (Some ''T''),
   ENT ''Dagger'' 8225 (Some ''T''), ENT ''permil'' 8240 None,
   ENT ''lsaquo'' 8249 (Some [CHR 0x22]), ENT ''rsaquo'' 8250 (Some [CHR 0x22]),
   ENT ''euro'' 8364 (Some ''E'')]"

definition entity_cmp :: "entity \<Rightarrow> entity \<Rightarrow> int" where
  "entity_cmp p1 p2 = g_ascii_strcasecmp (name p1) (name p2)"

text \<open>
  \<open>entity_cmp_num\<close> subtracts two \<open>uint\<close> codes and returns the difference as a
  \<open>gint\<close>: the difference modulo \<open>2 ^ 32\<close>, read as a signed 32-bit number.
\<close>

definition to_gint :: "int \<Rightarrow> int" where
  "to_gint d = (let m = d mod 2 ^ 32 in if m \<ge> 2 ^ 31 then m - 2 ^ 32 else m)"

definition entity_cmp_num :: "entity \<Rightarrow> entity \<Rightarrow> int" where
  "entity_cmp_num p1 p2 = to_gint (int (code p1) - int (code p2))"

text \<open>The two sorted views that \<open>rspamd_html_library_init\<close> builds.\<close>

definition entities_defs_sorted :: "entity list" where
  "entities_defs_sorted = qsort entity_cmp entities_defs"

definition entities_defs_num :: "entity list" where
  "entities_defs_num = qsort entity_cmp_num entities_defs_sorted"

text \<open>
  A store into the buffer. The decoder can store behind the last byte of the buffer it
  was given (see C2); the model then lets the byte list grow, the bytes skipped being 0.
\<close>

definition poke :: "string \<Rightarrow> nat \<Rightarrow> char \<Rightarrow> string" where
  "poke s i c = (if i < length s then s[i := c] else s @ replicate (i - length s) NUL @ [c])"

fun write_bytes :: "string \<Rightarrow> nat \<Rightarrow> string \<Rightarrow> string" where
  "write_bytes s t [] = s"
| "write_bytes s t (c # cs) = write_bytes (poke s t c) (Suc t) cs"

text \<open>The C string that starts at offset \<open>p\<close> of the buffer.\<close>

definition cstr_at :: "string \<Rightarrow> nat \<Rightarrow> string" where
  "cstr_at s p = takeWhile (\<lambda>c. c \<noteq> NUL) (drop p s)"

text \<open>
  The two stores of the decoder: \<open>memmove (t, e, h - e); t += h - e\<close>, which copies the
  bytes from the ampersand up to the byte in front of \<open>h\<close>, and
  \<open>memcpy (t, rep, rep_len); t += rep_len\<close>. Each returns the buffer and the new \<open>t\<close>.
\<close>

definition pass_through :: "string \<Rightarrow> nat \<Rightarrow> nat \<Rightarrow> nat \<Rightarrow> string \<times> nat" where
  "pass_through s0 t e h = (write_bytes s0 t (take (h - e) (drop e s0)), t + (h - e))"

definition put_replacement :: "string \<Rightarrow> nat \<Rightarrow> string \<Rightarrow> string \<times> nat" where
  "put_replacement s0 t rep = (write_bytes s0 t rep, t + length rep)"

text \<open>
  The numeric branch (\<open>else if (e + 2 < h)\<close>). \<open>isgraph\<close> stands for
  \<open>g_unichar_isgraph\<close> of GLib, a table of Unicode. \<open>val\<close> is a \<open>gint\<close> and \<open>key.code\<close>
  a \<open>uint\<close>: both keep the low 32 bits of what \<open>strtoul\<close> returns. \<open>end_ptr\<close> points
  at a byte other than the terminator when \<open>strtoul\<close> stopped inside the string.
\<close>

definition decode_numeric :: "(nat \<Rightarrow> bool) \<Rightarrow> string \<Rightarrow> nat \<Rightarrow> nat \<Rightarrow> nat \<Rightarrow> string \<times> nat" where
  "decode_numeric isgraph s0 t e h =
     (let base = (if s0 ! (e + 2) = CHR ''x'' \<or> s0 ! (e + 2) = CHR ''X'' then 16
                  else if s0 ! (e + 2) = CHR ''o'' \<or> s0 ! (e + 2) = CHR ''O'' then 8
                  else 10 :: nat);
          str = cstr_at s0 (if base = 10 then e + 2 else e + 3);
          r = strtoul str base;
          val = fst r mod 2 ^ 32
      in if snd r < length str then pass_through s0 t e h
         else
           (case bsearch entity_cmp_num (ENT [] val None) entities_defs_num of
              Some ent \<Rightarrow>
                (case replacement ent of
                   Some rep \<Rightarrow> put_replacement s0 t rep
                 | None \<Rightarrow> (s0, t))
            | None \<Rightarrow>
                if isgraph val then put_replacement s0 t (g_unichar_to_utf8 val)
                else (s0, t)))"

text \<open>
  The body of \<open>case 1\<close> once \<open>*h\<close> is the semicolon: \<open>e\<close> is the offset of the
  ampersand, \<open>t\<close> the write offset. The byte at \<open>h\<close> is set to 0 for the lookups and
  set back to the semicolon at the end.
\<close>

definition decode_entity :: "(nat \<Rightarrow> bool) \<Rightarrow> string \<Rightarrow> nat \<Rightarrow> nat \<Rightarrow> nat \<Rightarrow> string \<times> nat" where
  "decode_entity isgraph s t e h =
     (let s0 = s[h := NUL];
          found = (if s0 ! (e + 1) \<noteq> CHR ''#''
                   then bsearch entity_cmp (ENT (cstr_at s0 (e + 1)) 0 None) entities_defs_sorted
                   else None);
          st =
            (case found of
               Some ent \<Rightarrow>
                 (case replacement ent of
                    Some rep \<Rightarrow> put_replacement s0 t rep
                  | None \<Rightarrow> pass_through s0 t e h)
             | None \<Rightarrow>
                 if e + 2 < h then decode_numeric isgraph s0 t e h else (s0, t))
      in (poke (fst st) h CHR '';'', snd st))"

text \<open>
  The loop \<open>while (h - s < (gint)l)\<close>: \<open>h\<close> is the read offset, \<open>t\<close> the write offset,
  \<open>state\<close> is 0 outside an entity and 1 behind an ampersand.
\<close>

function decode_loop :: "(nat \<Rightarrow> bool) \<Rightarrow> nat \<Rightarrow> string \<Rightarrow> nat \<Rightarrow> nat \<Rightarrow> nat \<Rightarrow> nat \<Rightarrow> nat \<times> string" where
  "decode_loop isgraph l s t h e state =
     (if h < l then
        (if state = 0 then
           (if s ! h = CHR ''&'' then decode_loop isgraph l s t (h + 1) h 1
            else decode_loop isgraph l (poke s t (s ! h)) (t + 1) (h + 1) e 0)
         else
           (if s ! h = CHR '';'' \<and> h > e then
              decode_loop isgraph l (fst (decode_entity isgraph s t e h))
                (snd (decode_entity isgraph s t e h)) (h + 1) e 0
            else decode_loop isgraph l s t (h + 1) e state))
      else (t, s))"
  by pat_completeness auto
termination
  by (relation "measure (\<lambda>(isgraph, l, s, t, h, e, state). l - h)") auto

text \<open>
  The function itself: \<open>s\<close> holds the bytes of the buffer, \<open>len\<close> is the length the
  caller passes (\<open>len \<le> length s\<close>); a \<open>len\<close> of 0 asks for \<open>strlen\<close>. The loop compares
  with \<open>(gint)l\<close>, which is negative from \<open>2 ^ 31\<close> on. The result is the returned
  length \<open>t - s\<close> and the bytes of the buffer.
\<close>

definition rspamd_html_decode_entitles_inplace :: "(nat \<Rightarrow> bool) \<Rightarrow> string \<Rightarrow> nat \<Rightarrow> nat \<times> string" where
  "rspamd_html_decode_entitles_inplace isgraph s len =
     (let l = (if len = 0 then length (cstr_at s 0) else len) in
      if l < 2 ^ 31 then decode_loop isgraph l s 0 0 0 0 else (0, s))"

text \<open>The decoded text: the first \<open>new length\<close> bytes of the buffer.\<close>

definition decoded_text :: "(nat \<Rightarrow> bool) \<Rightarrow> string \<Rightarrow> nat \<Rightarrow> string" where
  "decoded_text isgraph s len =
     (let r = rspamd_html_decode_entitles_inplace isgraph s len in take (fst r) (snd r))"

text \<open>The key by which \<open>g_ascii_strcasecmp\<close> orders strings: the lowered bytes.\<close>

definition lcn :: "string \<Rightarrow> nat list" where
  "lcn s = map (\<lambda>c. of_char (g_ascii_tolower c)) s"

section \<open>Part similarity: \<open>rspamd_words_levenshtein_distance\<close> (libmime/message.c)\<close>

text \<open>
  The C function keeps one row of the dynamic-programming table in \<open>column\<close>, an array
  of \<open>s1len + 1\<close> unsigned integers, and walks the second sequence in the outer loop.
  Word hashes are 64-bit words. The array cells never exceed \<open>s1len + s2len\<close>, which the
  guard bounds by 8192, so the cells are modelled as natural numbers.
\<close>

definition MIN3 :: "nat \<Rightarrow> nat \<Rightarrow> nat \<Rightarrow> nat" where
  "MIN3 a b c = (if a < b then (if a < c then a else c) else (if b < c then b else c))"

definition max_words :: nat where
  "max_words = 8192"

text \<open>The inner loop \<open>for (y = 1, lastdiag = x - 1; y <= s1len; y++)\<close> for one \<open>h2\<close>.\<close>

function lev_inner :: "64 word list \<Rightarrow> 64 word \<Rightarrow> nat \<Rightarrow> nat \<Rightarrow> nat list \<Rightarrow> nat list" where
  "lev_inner w1 h2 y lastdiag column =
     (if y \<le> length w1 then
        (let olddiag = column ! y;
             h1 = w1 ! (y - 1);
             eq = (if h1 = h2 then 1 else 0 :: nat);
             column' = column[y := MIN3 (column ! y + 1) (column ! (y - 1) + 1) (lastdiag + eq * 2)]
         in lev_inner w1 h2 (y + 1) olddiag column')
      else column)"
  by pat_completeness auto
termination
  by (relation "measure (\<lambda>(w1, h2, y, lastdiag, column). Suc (length w1) - y)") auto

text \<open>The outer loop \<open>for (x = 1; x <= s2len; x++)\<close>.\<close>

function lev_outer :: "64 word list \<Rightarrow> 64 word list \<Rightarrow> nat \<Rightarrow> nat list \<Rightarrow> nat list" where
  "lev_outer w1 w2 x column =
     (if x \<le> length w2 then
        lev_outer w1 w2 (x + 1) (lev_inner w1 (w2 ! (x - 1)) 1 (x - 1) (column[0 := x]))
      else column)"
  by pat_completeness auto
termination
  by (relation "measure (\<lambda>(w1, w2, x, column). Suc (length w2) - x)") auto

text \<open>
  \<open>g_malloc0\<close> zeroes the array and the first loop stores \<open>column[y] = y\<close> for
  \<open>1 \<le> y \<le> s1len\<close>, which gives \<open>[0, 1, \<dots>, s1len]\<close>. The sum \<open>s1len + s2len\<close> is
  computed in 32-bit unsigned arithmetic.
\<close>

definition rspamd_words_levenshtein_distance :: "64 word list \<Rightarrow> 64 word list \<Rightarrow> nat" where
  "rspamd_words_levenshtein_distance w1 w2 =
     (let s1len = length w1; s2len = length w2 in
      if (s1len + s2len) mod 2 ^ 32 > max_words then 0
      else lev_outer w1 w2 1 [0 ..< s1len + 1] ! s1len)"

section \<open>The tag table and its lookups (libserver/html.c)\<close>

text \<open>
  Modelled from the spec: the content-model macros \<open>CM_*\<close> and the flag macros \<open>FL_*\<close>
  are defined in html_tags.h and html.h, which are not among the sources. The spec calls
  them bit flags of a tag; a flag word is modelled as the set of the flags it holds, so
  that \<open>flags & F\<close> is membership and \<open>flags |= F\<close> is insertion.
\<close>

datatype tag_flag =
    CM_UNKNOWN | CM_EMPTY | CM_HTML | CM_HEAD | CM_BLOCK | CM_INLINE | CM_LIST | CM_DEFLIST
  | CM_TABLE | CM_ROWGRP | CM_ROW | CM_FIELD | CM_OBJECT | CM_PARAM | CM_FRAMES | CM_HEADING
  | CM_OPT | CM_IMG | CM_MIXED | CM_NO_INDENT | CM_OBSOLETE | CM_OMITST | CM_UNIQUE
  | FL_CLOSING | FL_CLOSED | FL_BROKEN | FL_IGNORE | FL_BLOCK

record html_tag_def =
  def_name :: string
  def_id :: int
  def_len :: nat
  def_flags :: "tag_flag set"

definition TAG_DEF :: "int \<Rightarrow> string \<Rightarrow> tag_flag set \<Rightarrow> html_tag_def" where
  "TAG_DEF i n f = \<lparr>def_name = n, def_id = i, def_len = length n, def_flags = f\<rparr>"

text \<open>
  The enumeration \<open>Tag_A, Tag_ABBR, \<dots>\<close> and its last member \<open>N_TAGS\<close> are declared in
  html_tags.h as well. The table takes the enumeration as the parameter \<open>Tag\<close>, which
  maps the part of an enumerator's name behind \<open>Tag_\<close> to its value.
\<close>

definition tag_defs :: "(string \<Rightarrow> int) \<Rightarrow> html_tag_def list" where
  "tag_defs Tag = [
   TAG_DEF (Tag ''A'') ''a'' {},
   TAG_DEF (Tag ''ABBR'') ''abbr'' {CM_INLINE},
   TAG_DEF (Tag ''ACRONYM'') ''acronym'' {CM_INLINE},
   TAG_DEF (Tag ''ADDRESS'') ''address'' {CM_BLOCK},
   TAG_DEF (Tag ''APPLET'') ''applet'' {CM_OBJECT, CM_IMG, CM_INLINE, CM_PARAM},
   TAG_DEF (Tag ''AREA'') ''area'' {CM_BLOCK, CM_EMPTY},
   TAG_DEF (Tag ''B'') ''b'' {CM_INLINE, FL_BLOCK},
   TAG_DEF (Tag ''BASE'') ''base'' {CM_HEAD, CM_EMPTY},
   TAG_DEF (Tag ''BASEFONT'') ''basefont'' {CM_INLINE, CM_EMPTY},
   TAG_DEF (Tag ''BDO'') ''bdo'' {CM_INLINE},
   TAG_DEF (Tag ''BIG'') ''big'' {CM_INLINE},
   TAG_DEF (Tag ''BLOCKQUOTE'') ''blockquote'' {CM_BLOCK},
   TAG_DEF (Tag ''BODY'') ''body'' {CM_HTML, CM_OPT, CM_OMITST, CM_UNIQUE, FL_BLOCK},
   TAG_DEF (Tag ''BR'') ''br'' {CM_INLINE, CM_EMPTY},
   TAG_DEF (Tag ''BUTTON'') ''button'' {CM_INLINE, FL_BLOCK},
   TAG_DEF (Tag ''CAPTION'') ''caption'' {CM_TABLE},
   TAG_DEF (Tag ''CENTER'') ''center'' {CM_BLOCK},
   TAG_DEF (Tag ''CITE'') ''cite'' {CM_INLINE},
   TAG_DEF (Tag ''CODE'') ''code'' {CM_INLINE},
   TAG_DEF (Tag ''COL'') ''col'' {CM_TABLE, CM_EMPTY},
   TAG_DEF (Tag ''COLGROUP'') ''colgroup'' {CM_TABLE, CM_OPT},
   TAG_DEF (Tag ''DD'') ''dd'' {CM_DEFLIST, CM_OPT, CM_NO_INDENT},
   TAG_DEF (Tag ''DEL'') ''del'' {CM_INLINE, CM_BLOCK, CM_MIXED},
   TAG_DEF (Tag ''DFN'') ''dfn'' {CM_INLINE},
   TAG_DEF (Tag ''DIR'') ''dir'' {CM_BLOCK, CM_OBSOLETE},
   TAG_DEF (Tag ''DIV'') ''div'' {CM_BLOCK, FL_BLOCK},
   TAG_DEF (Tag ''DL'') ''dl'' {CM_BLOCK, FL_BLOCK},
   TAG_DEF (Tag ''DT'') ''dt'' {CM_DEFLIST, CM_OPT, CM_NO_INDENT},
   TAG_DEF (Tag ''EM'') ''em'' {CM_INLINE},
   TAG_DEF (Tag ''FIELDSET'') ''fieldset'' {CM_BLOCK},
   TAG_DEF (Tag ''FONT'') ''font'' {FL_BLOCK},
   TAG_DEF (Tag ''FORM'') ''form'' {CM_BLOCK},
   TAG_DEF (Tag ''FRAME'') ''frame'' {CM_FRAMES, CM_EMPTY},
   TAG_DEF (Tag ''FRAMESET'') ''frameset'' {CM_HTML, CM_FRAMES},
   TAG_DEF (Tag ''H1'') ''h1'' {CM_BLOCK, CM_HEADING},
   TAG_DEF (Tag ''H2'') ''h2'' {CM_BLOCK, CM_HEADING},
   TAG_DEF (Tag ''H3'') ''h3'' {CM_BLOCK, CM_HEADING},
   TAG_DEF (Tag ''H4'') ''h4'' {CM_BLOCK, CM_HEADING},
   TAG_DEF (Tag ''H5'') ''h5'' {CM_BLOCK, CM_HEADING},
   TAG_DEF (Tag ''H6'') ''h6'' {CM_BLOCK, CM_HEADING},
   TAG_DEF (Tag ''HEAD'') ''head'' {CM_HTML, CM_OPT, CM_OMITST, CM_UNIQUE},
   TAG_DEF (Tag ''HR'') ''hr'' {CM_BLOCK, CM_EMPTY},
   TAG_DEF (Tag ''HTML'') ''html'' {CM_HTML, CM_OPT, CM_OMITST, CM_UNIQUE},
   TAG_DEF (Tag ''I'') ''i'' {CM_INLINE},
   TAG_DEF (Tag ''IFRAME'') ''iframe'' {},
   TAG_DEF (Tag ''IMG'') ''img'' {CM_INLINE, CM_IMG, CM_EMPTY},
   TAG_DEF (Tag ''INPUT'') ''input'' {CM_INLINE, CM_IMG, CM_EMPTY},
   TAG_DEF (Tag ''INS'') ''ins'' {CM_INLINE, CM_BLOCK, CM_MIXED},
   TAG_DEF (Tag ''ISINDEX'') ''isindex'' {CM_BLOCK, CM_EMPTY},
   TAG_DEF (Tag ''KBD'') ''kbd'' {CM_INLINE},
   TAG_DEF (Tag ''LABEL'') ''label'' {CM_INLINE},
   TAG_DEF (Tag ''LEGEND'') ''legend'' {CM_INLINE},
   TAG_DEF (Tag ''LI'') ''li'' {CM_LIST, CM_OPT, CM_NO_INDENT, FL_BLOCK},
   TAG_DEF (Tag ''LINK'') ''link'' {CM_HEAD, CM_EMPTY},
   TAG_DEF (Tag ''LISTING'') ''listing'' {CM_BLOCK, CM_OBSOLETE},
   TAG_DEF (Tag ''MAP'') ''map'' {CM_INLINE},
   TAG_DEF (Tag ''MENU'') ''menu'' {CM_BLOCK, CM_OBSOLETE},
   TAG_DEF (Tag ''META'') ''meta'' {CM_HEAD, CM_INLINE, CM_EMPTY},
   TAG_DEF (Tag ''NOFRAMES'') ''noframes'' {CM_BLOCK, CM_FRAMES},
   TAG_DEF (Tag ''NOSCRIPT'') ''noscript'' {CM_BLOCK, CM_INLINE, CM_MIXED},
   TAG_DEF (Tag ''OBJECT'') ''object'' {CM_OBJECT, CM_HEAD, CM_IMG, CM_INLINE, CM_PARAM},
   TAG_DEF (Tag ''OL'') ''ol'' {CM_BLOCK, FL_BLOCK},
   TAG_DEF (Tag ''OPTGROUP'') ''optgroup'' {CM_FIELD, CM_OPT},
   TAG_DEF (Tag ''OPTION'') ''option'' {CM_FIELD, CM_OPT},
   TAG_DEF (Tag ''P'') ''p'' {CM_BLOCK, CM_OPT, FL_BLOCK},
   TAG_DEF (Tag ''PARAM'') ''param'' {CM_INLINE, CM_EMPTY},
   TAG_DEF (Tag ''PLAINTEXT'') ''plaintext'' {CM_BLOCK, CM_OBSOLETE},
   TAG_DEF (Tag ''PRE'') ''pre'' {CM_BLOCK},
   TAG_DEF (Tag ''Q'') ''q'' {CM_INLINE},
   TAG_DEF (Tag ''RB'') ''rb'' {CM_INLINE},
   TAG_DEF (Tag ''RBC'') ''rbc'' {CM_INLINE},
   TAG_DEF (Tag ''RP'') ''rp'' {CM_INLINE},
   TAG_DEF (Tag ''RT'') ''rt'' {CM_INLINE},
   TAG_DEF (Tag ''RTC'') ''rtc'' {CM_INLINE},
   TAG_DEF (Tag ''RUBY'') ''ruby'' {CM_INLINE},
   TAG_DEF (Tag ''S'') ''s'' {CM_INLINE},
   TAG_DEF (Tag ''SAMP'') ''samp'' {CM_INLINE},
   TAG_DEF (Tag ''SCRIPT'') ''script'' {CM_HEAD, CM_MIXED},
   TAG_DEF (Tag ''SELECT'') ''select'' {CM_INLINE, CM_FIELD},
   TAG_DEF (Tag ''SMALL'') ''small'' {CM_INLINE},
   TAG_DEF (Tag ''SPAN'') ''span'' {CM_BLOCK, FL_BLOCK},
   TAG_DEF (Tag ''STRIKE'') ''strike'' {CM_INLINE},
   TAG_DEF (Tag ''STRONG'') ''strong'' {CM_INLINE},
   TAG_DEF (Tag ''STYLE'') ''style'' {CM_HEAD},
   TAG_DEF (Tag ''SUB'') ''sub'' {CM_INLINE},
   TAG_DEF (Tag ''SUP'') ''sup'' {CM_INLINE},
   TAG_DEF (Tag ''TABLE'') ''table'' {CM_BLOCK, FL_BLOCK},
   TAG_DEF (Tag ''TBODY'') ''tbody'' {CM_TABLE, CM_ROWGRP, CM_OPT, FL_BLOCK},
   TAG_DEF (Tag ''TD'') ''td'' {CM_ROW, CM_OPT, CM_NO_INDENT, FL_BLOCK},
   TAG_DEF (Tag ''TEXTAREA'') ''textarea'' {CM_INLINE, CM_FIELD},
   TAG_DEF (Tag ''TFOOT'') ''tfoot'' {CM_TABLE, CM_ROWGRP, CM_OPT},
   TAG_DEF (Tag ''TH'') ''th'' {CM_ROW, CM_OPT, CM_NO_INDENT, FL_BLOCK},
   TAG_DEF (Tag ''THEAD'') ''thead'' {CM_TABLE, CM_ROWGRP, CM_OPT},
   TAG_DEF (Tag ''TITLE'') ''title'' {CM_HEAD, CM_UNIQUE},
   TAG_DEF (Tag ''TR'') ''tr'' {CM_TABLE, CM_OPT, FL_BLOCK},
   TAG_DEF (Tag ''TT'') ''tt'' {CM_INLINE},
   TAG_DEF (Tag ''U'') ''u'' {CM_INLINE},
   TAG_DEF (Tag ''UL'') ''ul'' {CM_BLOCK, FL_BLOCK},
   TAG_DEF (Tag ''VAR'') ''var'' {CM_INLINE},
   TAG_DEF (Tag ''XMP'') ''xmp'' {CM_BLOCK, CM_OBSOLETE},
   TAG_DEF (Tag ''NEXTID'') ''nextid'' {CM_HEAD, CM_EMPTY},
   TAG_DEF (Tag ''ALIGN'') ''align'' {CM_BLOCK},
   TAG_DEF (Tag ''BGSOUND'') ''bgsound'' {CM_HEAD, CM_EMPTY},
   TAG_DEF (Tag ''BLINK'') ''blink'' {CM_INLINE},
   TAG_DEF (Tag ''COMMENT'') ''comment'' {CM_INLINE},
   TAG_DEF (Tag ''EMBED'') ''embed'' {CM_INLINE, CM_IMG, CM_EMPTY},
   TAG_DEF (Tag ''ILAYER'') ''ilayer'' {CM_INLINE},
   TAG_DEF (Tag ''KEYGEN'') ''keygen'' {CM_INLINE, CM_EMPTY},
   TAG_DEF (Tag ''LAYER'') ''layer'' {CM_BLOCK},
   TAG_DEF (Tag ''MARQUEE'') ''marquee'' {CM_INLINE, CM_OPT},
   TAG_DEF (Tag ''MULTICOL'') ''multicol'' {CM_BLOCK},
   TAG_DEF (Tag ''NOBR'') ''nobr'' {CM_INLINE},
   TAG_DEF (Tag ''NOEMBED'') ''noembed'' {CM_INLINE},
   TAG_DEF (Tag ''NOLAYER'') ''nolayer'' {CM_BLOCK, CM_INLINE, CM_MIXED},
   TAG_DEF (Tag ''NOSAVE'') ''nosave'' {CM_BLOCK},
   TAG_DEF (Tag ''SERVER'') ''server'' {CM_HEAD, CM_MIXED, CM_BLOCK, CM_INLINE},
   TAG_DEF (Tag ''SERVLET'') ''servlet'' {CM_OBJECT, CM_IMG, CM_INLINE, CM_PARAM},
   TAG_DEF (Tag ''SPACER'') ''spacer'' {CM_INLINE, CM_EMPTY},
   TAG_DEF (Tag ''WBR'') ''wbr'' {CM_INLINE, CM_EMPTY}]"

text \<open>The names of the enumerators the table uses, in its order.\<close>

definition tag_symbols :: "string list" where
  "tag_symbols = [
   ''A'', ''ABBR'', ''ACRONYM'', ''ADDRESS'', ''APPLET'', ''AREA'', ''B'', ''BASE'',
   ''BASEFONT'', ''BDO'', ''BIG'', ''BLOCKQUOTE'', ''BODY'', ''BR'', ''BUTTON'', ''CAPTION'',
   ''CENTER'', ''CITE'', ''CODE'', ''COL'', ''COLGROUP'', ''DD'', ''DEL'', ''DFN'',
   ''DIR'', ''DIV'', ''DL'', ''DT'', ''EM'', ''FIELDSET'', ''FONT'', ''FORM'',
   ''FRAME'', ''FRAMESET'', ''H1'', ''H2'', ''H3'', ''H4'', ''H5'', ''H6'',
   ''HEAD'', ''HR'', ''HTML'', ''I'', ''IFRAME'', ''IMG'', ''INPUT'', ''INS'',
   ''ISINDEX'', ''KBD'', ''LABEL'', ''LEGEND'', ''LI'', ''LINK'', ''LISTING'', ''MAP'',
   ''MENU'', ''META'', ''NOFRAMES'', ''NOSCRIPT'', ''OBJECT'', ''OL'', ''OPTGROUP'', ''OPTION'',
   ''P'', ''PARAM'', ''PLAINTEXT'', ''PRE'', ''Q'', ''RB'', ''RBC'', ''RP'',
   ''RT'', ''RTC'', ''RUBY'', ''S'', ''SAMP'', ''SCRIPT'', ''SELECT'', ''SMALL'',
   ''SPAN'', ''STRIKE'', ''STRONG'', ''STYLE'', ''SUB'', ''SUP'', ''TABLE'', ''TBODY'',
   ''TD'', ''TEXTAREA'', ''TFOOT'', ''TH'', ''THEAD'', ''TITLE'', ''TR'', ''TT'',
   ''U'', ''UL'', ''VAR'', ''XMP'', ''NEXTID'', ''ALIGN'', ''BGSOUND'', ''BLINK'',
   ''COMMENT'', ''EMBED'', ''ILAYER'', ''KEYGEN'', ''LAYER'', ''MARQUEE'', ''MULTICOL'', ''NOBR'',
   ''NOEMBED'', ''NOLAYER'', ''NOSAVE'', ''SERVER'', ''SERVLET'', ''SPACER'', ''WBR'']"

text \<open>What C guarantees of the enumeration: the enumerators differ and fit \<open>gint16\<close>.\<close>

definition html_tags_h :: "(string \<Rightarrow> int) \<Rightarrow> bool" where
  "html_tags_h Tag =
     (inj_on Tag (set tag_symbols) \<and> list_all (\<lambda>n. 0 \<le> Tag n \<and> Tag n < 2 ^ 15) tag_symbols)"

text \<open>
  Modelled from the spec: \<open>rspamd_lc_cmp\<close> is defined in libutil/str_util.c, which is
  not among the sources. The spec describes the order of the tag table as "(length, then
  case-insensitive lexicographic)": the function compares the first \<open>l\<close> bytes of two
  spans after lowering them and returns the difference of the first pair that differs.
\<close>

fun rspamd_lc_cmp :: "string \<Rightarrow> string \<Rightarrow> nat \<Rightarrow> int" where
  "rspamd_lc_cmp (a # s) (b # d) (Suc l) =
     (let c1 = int (of_char (g_ascii_tolower a)); c2 = int (of_char (g_ascii_tolower b))
      in if c1 \<noteq> c2 then c1 - c2 else rspamd_lc_cmp s d l)"
| "rspamd_lc_cmp s d l = 0"

text \<open>
  \<open>struct html_tag\<close>: the fields the tree builder reads. \<open>tag_parent\<close> is the
  \<open>GNode *parent\<close> field, an index into the node arena below.
\<close>

record html_tag =
  tag_id :: int
  tag_flags :: "tag_flag set"
  content_length :: nat
  tag_name :: string
  tag_parent :: "nat option"

definition tag_cmp :: "html_tag_def \<Rightarrow> html_tag_def \<Rightarrow> int" where
  "tag_cmp p1 p2 =
     (if def_len p1 = def_len p2 then rspamd_lc_cmp (def_name p1) (def_name p2) (def_len p1)
      else int (def_len p1) - int (def_len p2))"

definition tag_cmp_id :: "html_tag_def \<Rightarrow> html_tag_def \<Rightarrow> int" where
  "tag_cmp_id p1 p2 = def_id p1 - def_id p2"

definition tag_find_id :: "html_tag \<Rightarrow> html_tag_def \<Rightarrow> int" where
  "tag_find_id tag d = tag_id tag - def_id d"

text \<open>
  \<open>tag->name.len - d->len\<close> is an unsigned subtraction whose result is returned as a
  \<open>gint\<close>.
\<close>

definition tag_find :: "html_tag \<Rightarrow> html_tag_def \<Rightarrow> int" where
  "tag_find tag d =
     (if def_len d = length (tag_name tag)
      then rspamd_lc_cmp (tag_name tag) (def_name d) (length (tag_name tag))
      else to_gint (int (length (tag_name tag)) - int (def_len d)))"

text \<open>The two sorted views that \<open>rspamd_html_library_init\<close> builds.\<close>

definition tag_defs_sorted :: "(string \<Rightarrow> int) \<Rightarrow> html_tag_def list" where
  "tag_defs_sorted Tag = qsort tag_cmp (tag_defs Tag)"

definition tag_defs_num :: "(string \<Rightarrow> int) \<Rightarrow> html_tag_def list" where
  "tag_defs_num Tag = qsort tag_cmp_id (tag_defs_sorted Tag)"

text \<open>The key of a lookup: a tag of which only the searched field is set.\<close>

definition key_tag :: "string \<Rightarrow> int \<Rightarrow> html_tag" where
  "key_tag n i = \<lparr>tag_id = i, tag_flags = {}, content_length = 0, tag_name = n, tag_parent = None\<rparr>"

text \<open>\<open>nm\<close> holds the bytes of the C string \<open>name\<close>; \<open>strlen\<close> is its length.\<close>

definition rspamd_html_tag_by_name :: "(string \<Rightarrow> int) \<Rightarrow> string \<Rightarrow> int" where
  "rspamd_html_tag_by_name Tag nm =
     (case bsearch tag_find (key_tag nm 0) (tag_defs_sorted Tag) of
        Some found \<Rightarrow> def_id found
      | None \<Rightarrow> - 1)"

text \<open>The result \<open>None\<close> is \<open>NULL\<close>.\<close>

definition rspamd_html_tag_by_id :: "(string \<Rightarrow> int) \<Rightarrow> int \<Rightarrow> string option" where
  "rspamd_html_tag_by_id Tag i =
     (case bsearch tag_find_id (key_tag [] i) (tag_defs_num Tag) of
        Some found \<Rightarrow> Some (def_name found)
      | None \<Rightarrow> None)"

text \<open>The key by which \<open>tag_cmp\<close> orders the table: the length, then the lowered bytes.\<close>

definition tag_key :: "html_tag_def \<Rightarrow> nat list" where
  "tag_key d = length (def_name d) # lcn (def_name d)"

text \<open>
  One enumeration that meets \<open>html_tags_h\<close>, for concrete instances: the enumerators
  numbered from 1 in the order of the table.
\<close>

definition sample_Tag :: "string \<Rightarrow> int" where
  "sample_Tag s = int (length (takeWhile (\<lambda>x. x \<noteq> s) tag_symbols)) + 1"

section \<open>The tag tree: \<open>rspamd_html_check_balance\<close> and \<open>rspamd_html_process_tag\<close>\<close>

datatype html_flag =
    RSPAMD_HTML_FLAG_BAD_START | RSPAMD_HTML_FLAG_BAD_ELEMENTS | RSPAMD_HTML_FLAG_XML
  | RSPAMD_HTML_FLAG_UNBALANCED | RSPAMD_HTML_FLAG_UNKNOWN_ELEMENTS
  | RSPAMD_HTML_FLAG_DUPLICATE_ELEMENTS | RSPAMD_HTML_FLAG_TOO_MANY_TAGS

text \<open>
  The tree of \<open>GNode\<close>s is an arena: a list of nodes, a node being addressed by its
  index. A node holds its tag (\<open>None\<close> for the root, whose \<open>data\<close> is \<open>NULL\<close>) and the
  index of its parent. \<open>g_node_append\<close> adds the new node at the end of the list, so a
  node is always younger than its parent. A node keeps a pointer to the tag in C; the
  arena keeps the tag itself, and every later store to the tag is applied to the node.
\<close>

record GNode =
  node_data :: "html_tag option"
  node_parent :: "nat option"

text \<open>
  \<open>struct html_content\<close>: \<open>html_tags\<close> is the arena (\<open>[]\<close> for \<open>NULL\<close>), \<open>tags_seen\<close>
  the bit set indexed by tag id.
\<close>

record html_content =
  html_tags :: "GNode list"
  total_tags :: nat
  hc_flags :: "html_flag set"
  tags_seen :: "int set"

definition max_tags :: nat where
  "max_tags = 8192"

definition new_node :: "html_tag \<Rightarrow> nat option \<Rightarrow> GNode" where
  "new_node tag p = \<lparr>node_data = Some tag, node_parent = p\<rparr>"

definition add_flag :: "html_content \<Rightarrow> html_flag \<Rightarrow> html_content" where
  "add_flag hc f = hc\<lparr>hc_flags := insert f (hc_flags hc)\<rparr>"

definition add_tag_flag :: "html_tag \<Rightarrow> tag_flag \<Rightarrow> html_tag" where
  "add_tag_flag tag f = tag\<lparr>tag_flags := insert f (tag_flags tag)\<rparr>"

text \<open>
  The loop of \<open>rspamd_html_check_balance\<close>: from \<open>cur\<close> upwards, the first node with a
  tag of the id \<open>i\<close> that is not closed yet; the walk ends at the root, whose data is
  \<open>NULL\<close>. The test \<open>p < cur\<close> is always true in an arena built by appending and makes
  the recursion well-founded.
\<close>

function find_open :: "GNode list \<Rightarrow> int \<Rightarrow> nat option \<Rightarrow> nat option" where
  "find_open nodes i None = None"
| "find_open nodes i (Some cur) =
     (if cur < length nodes then
        (case node_data (nodes ! cur) of
           None \<Rightarrow> None
         | Some tmp \<Rightarrow>
             if tag_id tmp = i \<and> FL_CLOSED \<notin> tag_flags tmp then Some cur
             else (case node_parent (nodes ! cur) of
                     None \<Rightarrow> None
                   | Some p \<Rightarrow> if p < cur then find_open nodes i (Some p) else None))
      else None)"
  by pat_completeness auto
termination
  by (relation "measure (\<lambda>(nodes, i, c). case c of None \<Rightarrow> 0 | Some k \<Rightarrow> Suc k)") auto

definition close_node :: "GNode list \<Rightarrow> nat \<Rightarrow> GNode list" where
  "close_node nodes cur =
     nodes[cur := (nodes ! cur)\<lparr>node_data :=
        map_option (\<lambda>tmp. add_tag_flag tmp FL_CLOSED) (node_data (nodes ! cur))\<rparr>]"

text \<open>
  \<open>g_node_destroy (node)\<close> is only called on the node that was appended last; it is
  removed from the end of the arena.
\<close>

definition g_node_destroy :: "GNode list \<Rightarrow> nat \<Rightarrow> GNode list" where
  "g_node_destroy nodes node = take node nodes"

text \<open>
  \<open>rspamd_html_check_balance (node, cur_level)\<close>: the result, the arena and the new
  \<open>*cur_level\<close>.
\<close>

definition rspamd_html_check_balance ::
    "GNode list \<Rightarrow> nat \<Rightarrow> nat option \<Rightarrow> bool \<times> GNode list \<times> nat option" where
  "rspamd_html_check_balance nodes node cur_level =
     (case node_data (nodes ! node) of
        None \<Rightarrow> (True, nodes, cur_level)
      | Some arg \<Rightarrow>
          if FL_CLOSING \<in> tag_flags arg then
            (case find_open nodes (tag_id arg) (node_parent (nodes ! node)) of
               Some cur \<Rightarrow>
                 (True, g_node_destroy (close_node nodes cur) node, node_parent (nodes ! cur))
             | None \<Rightarrow> (False, nodes, cur_level))
          else (True, nodes, cur_level))"

text \<open>What \<open>rspamd_html_process_tag\<close> returns and leaves behind its pointer arguments.\<close>

record tag_result =
  res_ret :: bool
  res_hc :: html_content
  res_tag :: html_tag
  res_cur_level :: "nat option"
  res_balanced :: bool

text \<open>
  A closing or self-closed block tag (\<open>tag->flags & (FL_CLOSING|FL_CLOSED)\<close>). A
  \<open>NULL\<close> \<open>*cur_level\<close> is "bad parent node".
\<close>

definition process_closing :: "html_content \<Rightarrow> html_tag \<Rightarrow> nat option \<Rightarrow> bool \<Rightarrow> tag_result" where
  "process_closing hc tag cur_level balanced =
     (if cur_level = None then
        \<lparr>res_ret = False, res_hc = hc, res_tag = tag, res_cur_level = cur_level,
         res_balanced = balanced\<rparr>
      else if total_tags hc < max_tags then
        (let nnode = length (html_tags hc);
             b = rspamd_html_check_balance (html_tags hc @ [new_node tag cur_level]) nnode cur_level;
             hc1 = hc\<lparr>html_tags := fst (snd b), total_tags := total_tags hc + 1\<rparr>
         in if fst b then
              \<lparr>res_ret = True, res_hc = hc1, res_tag = tag, res_cur_level = snd (snd b),
               res_balanced = True\<rparr>
            else
              \<lparr>res_ret = True, res_hc = add_flag hc1 RSPAMD_HTML_FLAG_UNBALANCED, res_tag = tag,
               res_cur_level = snd (snd b), res_balanced = False\<rparr>)
      else
        \<lparr>res_ret = True, res_hc = hc, res_tag = tag, res_cur_level = cur_level,
         res_balanced = balanced\<rparr>)"

text \<open>
  "Something like \<open><a>bla<a>foo\<close>": the parent has the id of the tag and is not
  flagged \<open>FL_BLOCK\<close>. The node is appended to \<open>parent->parent\<close>.
\<close>

definition bad_nesting :: "html_content \<Rightarrow> html_tag \<Rightarrow> html_tag \<Rightarrow> nat option \<Rightarrow> tag_result" where
  "bad_nesting hc tag par cur_level =
     (let hc1 = add_flag hc RSPAMD_HTML_FLAG_UNBALANCED;
          tag1 = tag\<lparr>tag_parent := tag_parent par\<rparr>
      in if total_tags hc1 < max_tags then
           \<lparr>res_ret = True,
            res_hc = hc1\<lparr>html_tags := html_tags hc1 @ [new_node tag1 (tag_parent par)],
                         total_tags := total_tags hc1 + 1\<rparr>,
            res_tag = tag1, res_cur_level = Some (length (html_tags hc1)),
            res_balanced = False\<rparr>
         else
           \<lparr>res_ret = True, res_hc = hc1, res_tag = tag1, res_cur_level = cur_level,
            res_balanced = False\<rparr>)"

text \<open>
  Lines 1071 to 1086: the node of an opening tag is appended to \<open>*cur_level\<close> while
  \<open>total_tags < max_tags\<close>, and becomes the new level unless the tag is closed. A tag
  of the head, an unknown or an ignored one gets \<open>FL_IGNORE\<close> and the result \<open>FALSE\<close>.
\<close>

definition attach :: "html_content \<Rightarrow> html_tag \<Rightarrow> nat option \<Rightarrow> bool \<Rightarrow> tag_result" where
  "attach hc tag cur_level balanced =
     (let ign = (tag_flags tag \<inter> {CM_HEAD, CM_UNKNOWN, FL_IGNORE} \<noteq> {});
          tag1 = (if ign then add_tag_flag tag FL_IGNORE else tag)
      in if total_tags hc < max_tags then
           \<lparr>res_ret = (\<not> ign),
            res_hc = hc\<lparr>html_tags := html_tags hc @ [new_node tag1 cur_level],
                        total_tags := total_tags hc + 1\<rparr>,
            res_tag = tag1,
            res_cur_level =
              (if FL_CLOSED \<notin> tag_flags tag then Some (length (html_tags hc)) else cur_level),
            res_balanced = balanced\<rparr>
         else
           \<lparr>res_ret = (\<not> ign), res_hc = hc, res_tag = tag1, res_cur_level = cur_level,
            res_balanced = balanced\<rparr>)"

definition add_content_length :: "GNode list \<Rightarrow> nat \<Rightarrow> nat \<Rightarrow> GNode list" where
  "add_content_length nodes lvl n =
     nodes[lvl := (nodes ! lvl)\<lparr>node_data :=
        map_option (\<lambda>p. p\<lparr>content_length := content_length p + n\<rparr>) (node_data (nodes ! lvl))\<rparr>]"

text \<open>
  An opening block tag. The code reads \<open>(*cur_level)->data\<close> without a test; the level
  is never \<open>NULL\<close> once the root exists, and the model answers \<open>FALSE\<close> for a level that
  is \<open>NULL\<close> or outside the arena.
\<close>

definition process_opening :: "html_content \<Rightarrow> html_tag \<Rightarrow> nat option \<Rightarrow> bool \<Rightarrow> tag_result" where
  "process_opening hc tag cur_level balanced =
     (case cur_level of
        None \<Rightarrow>
          \<lparr>res_ret = False, res_hc = hc, res_tag = tag, res_cur_level = cur_level,
           res_balanced = balanced\<rparr>
      | Some lvl \<Rightarrow>
          if lvl < length (html_tags hc) then
            (case node_data (html_tags hc ! lvl) of
               None \<Rightarrow> attach hc tag cur_level balanced
             | Some par \<Rightarrow>
                 (let tag1 = (if FL_IGNORE \<in> tag_flags par then add_tag_flag tag FL_IGNORE else tag)
                  in if FL_CLOSED \<notin> tag_flags tag1 \<and> FL_BLOCK \<notin> tag_flags par
                        \<and> tag_id par = tag_id tag1
                     then bad_nesting hc tag1 par cur_level
                     else attach
                       (hc\<lparr>html_tags := add_content_length (html_tags hc) lvl (content_length tag1)\<rparr>)
                       tag1 cur_level balanced))
          else
            \<lparr>res_ret = False, res_hc = hc, res_tag = tag, res_cur_level = cur_level,
             res_balanced = balanced\<rparr>)"

text \<open>An inline tag (\<open>tag->flags & CM_INLINE\<close>): no node is made.\<close>

definition process_inline :: "html_content \<Rightarrow> html_tag \<Rightarrow> nat option \<Rightarrow> bool \<Rightarrow> tag_result" where
  "process_inline hc tag cur_level balanced =
     (let parent = (case cur_level of
                      None \<Rightarrow> None
                    | Some lvl \<Rightarrow> if lvl < length (html_tags hc) then node_data (html_tags hc ! lvl) else None);
          ign = (case parent of
                   None \<Rightarrow> False
                 | Some par \<Rightarrow> tag_flags par \<inter> {CM_HEAD, CM_UNKNOWN, FL_IGNORE} \<noteq> {})
      in \<lparr>res_ret = (\<not> ign), res_hc = hc,
          res_tag = (if ign then add_tag_flag tag FL_IGNORE else tag),
          res_cur_level = cur_level, res_balanced = balanced\<rparr>)"

text \<open>
  \<open>rspamd_html_process_tag\<close>. The first call makes the root. \<open>total_tags\<close> is tested
  against \<open>max_tags\<close> with \<open>>\<close> for the flag and with \<open><\<close> for every new node.
\<close>

definition rspamd_html_process_tag :: "html_content \<Rightarrow> html_tag \<Rightarrow> nat option \<Rightarrow> bool \<Rightarrow> tag_result" where
  "rspamd_html_process_tag hc tag cur_level balanced =
     (let hc1 = (if html_tags hc = []
                 then hc\<lparr>html_tags := [\<lparr>node_data = None, node_parent = None\<rparr>]\<rparr> else hc);
          cl1 = (if html_tags hc = [] then Some 0 else cur_level);
          hc2 = (if total_tags hc1 > max_tags
                 then add_flag hc1 RSPAMD_HTML_FLAG_TOO_MANY_TAGS else hc1)
      in if tag_id tag = - 1 then
           \<lparr>res_ret = False, res_hc = hc2\<lparr>total_tags := total_tags hc2 + 1\<rparr>, res_tag = tag,
            res_cur_level = cl1, res_balanced = balanced\<rparr>
         else if CM_INLINE \<notin> tag_flags tag then
           (if tag_flags tag \<inter> {FL_CLOSING, FL_CLOSED} \<noteq> {}
            then process_closing hc2 (tag\<lparr>tag_parent := cl1\<rparr>) cl1 balanced
            else process_opening hc2 (tag\<lparr>tag_parent := cl1\<rparr>) cl1 balanced)
         else process_inline hc2 (tag\<lparr>tag_parent := cl1\<rparr>) cl1 balanced)"

text \<open>
  The state \<open>tag_end\<close> of \<open>rspamd_html_process_part_full\<close> for a finished tag
  \<open>cur_tag\<close>, as far as the tree, the counters and the flags of the document go: the
  call of \<open>rspamd_html_process_tag\<close> and the bookkeeping of \<open>tags_seen\<close>. The state
  that is threaded through is the document and \<open>cur_level\<close>. \<open>N_TAGS\<close> is the last
  enumerator of html_tags.h.
\<close>

definition tag_end :: "int \<Rightarrow> html_content \<times> nat option \<Rightarrow> html_tag \<Rightarrow> html_content \<times> nat option" where
  "tag_end N_TAGS st cur_tag =
     (let r = rspamd_html_process_tag (fst st) cur_tag (snd st) True;
          hc = res_hc r;
          tag = res_tag r;
          hc1 = (if tag_id tag \<noteq> - 1 \<and> tag_id tag < N_TAGS then
                   (if CM_UNIQUE \<in> tag_flags tag \<and> tag_id tag \<in> tags_seen hc
                    then add_flag hc RSPAMD_HTML_FLAG_DUPLICATE_ELEMENTS else hc)
                     \<lparr>tags_seen := insert (tag_id tag) (tags_seen hc)\<rparr>
                 else hc)
      in (hc1, res_cur_level r))"

text \<open>The document as \<open>rspamd_html_process_part_full\<close> receives it, and \<open>cur_level = NULL\<close>.\<close>

definition hc_init :: html_content where
  "hc_init = \<lparr>html_tags = [], total_tags = 0, hc_flags = {}, tags_seen = {}\<rparr>"

text \<open>
  The tags of a document in the order in which the parser finishes them, each with
  the id and the flags that \<open>rspamd_html_parse_tag_content\<close> gave it.
\<close>

definition process_tags :: "int \<Rightarrow> html_tag list \<Rightarrow> html_content \<times> nat option" where
  "process_tags N_TAGS tags = foldl (tag_end N_TAGS) (hc_init, None) tags"

text \<open>The nodes of the tree that carry a tag (all but the root).\<close>

definition is_tag_node :: "GNode \<Rightarrow> bool" where
  "is_tag_node n = (node_data n \<noteq> None)"

definition tag_nodes :: "html_content \<Rightarrow> nat" where
  "tag_nodes hc = length (filter is_tag_node (html_tags hc))"

section \<open>Well-nested tag sequences\<close>





text \<open>A tag with an id, flags and nothing else, for concrete inputs.\<close>

definition sample_tag :: "int \<Rightarrow> tag_flag set \<Rightarrow> html_tag" where
  "sample_tag i f = \<lparr>tag_id = i, tag_flags = f, content_length = 0, tag_name = [], tag_parent = None\<rparr>"

subsection \<open>Invariants of the tree builder\<close>




definition cap_inv :: "html_content \<Rightarrow> bool" where
  "cap_inv hc = (tag_nodes hc \<le> total_tags hc \<and> tag_nodes hc \<le> max_tags)"

definition frame :: "html_content \<Rightarrow> html_content \<Rightarrow> bool" where
  "frame hc hc' = (total_tags hc' \<le> max (total_tags hc) max_tags
      \<and> hc_flags hc' \<subseteq> insert RSPAMD_HTML_FLAG_UNBALANCED (hc_flags hc))"

section \<open>Colours: \<open>rspamd_html_process_color\<close> (libserver/html.c)\<close>

text \<open>
  \<open>struct html_color\<close> is declared in html.h, which is not among the sources: a union
  \<open>d\<close> of the 32-bit \<open>val\<close> and the components \<open>r\<close>, \<open>g\<close>, \<open>b\<close>, \<open>alpha\<close>, and the
  flag \<open>valid\<close>. The code itself fixes the layout: it stores
  \<open>b + (g << 8) + (r << 16)\<close> in \<open>d.val\<close>, so \<open>b\<close>, \<open>g\<close> and \<open>r\<close> are the three low
  bytes of \<open>val\<close> and \<open>alpha\<close> is the byte that is left, the top one. \<open>d_val\<close> is the
  value of \<open>d.val\<close>, below \<open>2 ^ 32\<close>.
\<close>

record html_color =
  d_val :: nat
  valid :: bool

definition comp_alpha :: "html_color \<Rightarrow> nat" where
  "comp_alpha cl = d_val cl div 2 ^ 24 mod 256"

definition comp_r :: "html_color \<Rightarrow> nat" where
  "comp_r cl = d_val cl div 2 ^ 16 mod 256"

definition comp_g :: "html_color \<Rightarrow> nat" where
  "comp_g cl = d_val cl div 2 ^ 8 mod 256"

definition comp_b :: "html_color \<Rightarrow> nat" where
  "comp_b cl = d_val cl mod 256"

text \<open>The four stores \<open>d.comp.alpha = a; d.comp.r = r; d.comp.g = g; d.comp.b = b\<close>.\<close>

definition set_comp :: "nat \<Rightarrow> nat \<Rightarrow> nat \<Rightarrow> nat \<Rightarrow> nat" where
  "set_comp a r g b = (a mod 256) * 2 ^ 24 + (r mod 256) * 2 ^ 16 + (g mod 256) * 2 ^ 8 + b mod 256"

text \<open>
  The named colours. The table \<open>html_colornames\<close> of html_colors.h is not among the
  sources and is a parameter: names with their \<open>r\<close>, \<open>g\<close>, \<open>b\<close>. 
  \<open>rspamd_html_library_init\<close> puts every entry into a hash table whose keys are
  compared without regard to case; a later entry replaces an earlier one with the same
  key. Each colour of the table is stored with \<open>alpha = 255\<close> and \<open>valid = TRUE\<close>.
\<close>

definition named_color :: "nat \<Rightarrow> nat \<Rightarrow> nat \<Rightarrow> html_color" where
  "named_color r g b = \<lparr>d_val = set_comp 255 r g b, valid = True\<rparr>"

fun html_colors_hash :: "(string \<times> nat \<times> nat \<times> nat) list \<Rightarrow> string \<Rightarrow> html_color option" where
  "html_colors_hash [] key = None"
| "html_colors_hash ((n, r, g, b) # rest) key =
     (case html_colors_hash rest key of
        Some el \<Rightarrow> Some el
      | None \<Rightarrow> if lcn n = lcn key then Some (named_color r g b) else None)"

text \<open>
  The states of the \<open>rgb(\<dots>)\<close> scanner. Whenever the code sets \<open>state = skip_spaces\<close>
  it sets \<open>next_state\<close> too, so the pair is kept as one value: \<open>skipping\<close> tells
  whether \<open>state\<close> is \<open>skip_spaces\<close>, and \<open>st\<close> is \<open>next_state\<close> then and \<open>state\<close>
  otherwise.
\<close>

datatype rgb_state = obrace | num1 | num2 | num3

text \<open>
  The loop \<open>while (p < end)\<close> of the \<open>rgb\<close> branch; \<open>p\<close> and \<open>c\<close> are offsets into
  \<open>line\<close>. \<open>rspamd_strtoul\<close>, from libutil/str_util.c, is not among the sources and is
  the parameter \<open>strtoul_fn\<close>: the number in a span of digits, or \<open>None\<close> for \<open>FALSE\<close>.
  The result is \<open>valid\<close> with \<open>r\<close>, \<open>g\<close>, \<open>b\<close> at the label \<open>stop\<close>.
\<close>

function rgb_loop :: "(string \<Rightarrow> nat option) \<Rightarrow> string \<Rightarrow> nat \<Rightarrow> nat \<Rightarrow> bool \<Rightarrow> rgb_state
    \<Rightarrow> nat \<Rightarrow> nat \<Rightarrow> nat \<Rightarrow> bool \<times> nat \<times> nat \<times> nat" where
  "rgb_loop strtoul_fn line p c skipping st r g b =
     (if p < length line then
        (if skipping then
           (if \<not> g_ascii_isspace (line ! p) then rgb_loop strtoul_fn line p p False st r g b
            else rgb_loop strtoul_fn line (p + 1) c True st r g b)
         else if st = obrace then
           (if line ! p = CHR ''('' then rgb_loop strtoul_fn line (p + 1) c True num1 r g b
            else if g_ascii_isspace (line ! p) then rgb_loop strtoul_fn line p c True obrace r g b
            else (False, r, g, b))
         else if line ! p = CHR '','' then
           (case strtoul_fn (take (p - c) (drop c line)) of
              None \<Rightarrow> (False, r, g, b)
            | Some v \<Rightarrow>
                if st = num1 then rgb_loop strtoul_fn line (p + 1) c True num2 v g b
                else if st = num2 then rgb_loop strtoul_fn line (p + 1) c True num3 r v b
                else (True, r, g, v))
         else if \<not> g_ascii_isdigit (line ! p) then (False, r, g, b)
         else rgb_loop strtoul_fn line (p + 1) c False st r g b)
      else (False, r, g, b))"
  by pat_completeness auto
termination
  by (relation "measure (\<lambda>(f, line, p, c, skipping, st, r, g, b).
        4 * (length line - p) +
        (if skipping then (if p < length line \<and> g_ascii_isspace (line ! p) then 1 else 3)
         else if st = obrace then 2 else 0))") auto

text \<open>
  \<open>rspamd_html_process_color (line, len, cl)\<close>; \<open>line\<close> holds the \<open>len\<close> bytes of the
  span, and every caller passes \<open>len > 0\<close>. The hexadecimal branch copies at most 6
  bytes behind the \<open>#\<close> into \<open>hexbuf\<close> (\<open>rspamd_strlcpy\<close> stops at a NUL) and stores
  what \<open>strtoul\<close> makes of them; the \<open>rgb\<close> branch skips an \<open>a\<close> behind \<open>rgb\<close>. Both
  store into the 32-bit \<open>d.val\<close>. The result is \<open>*cl\<close>, which \<open>memset\<close> has zeroed.
\<close>

definition rspamd_html_process_color ::
    "(string \<times> nat \<times> nat \<times> nat) list \<Rightarrow> (string \<Rightarrow> nat option) \<Rightarrow> string \<Rightarrow> html_color" where
  "rspamd_html_process_color html_colornames strtoul_fn line =
     (if line \<noteq> [] \<and> hd line = CHR ''#'' then
        (let hexbuf = takeWhile (\<lambda>ch. ch \<noteq> NUL) (take (min 7 (length line) - 1) (tl line))
         in \<lparr>d_val = fst (strtoul hexbuf 16) mod 2 ^ 32, valid = True\<rparr>)
      else if length line > 4 \<and> rspamd_lc_cmp line ''rgb'' 3 = 0 then
        (let p = (if line ! 3 = CHR ''a'' then 4 else 3);
             res = rgb_loop strtoul_fn line p p True obrace 0 0 0
         in if fst res
            then \<lparr>d_val = (snd (snd (snd res)) + fst (snd (snd res)) * 2 ^ 8
                            + fst (snd res) * 2 ^ 16) mod 2 ^ 32,
                 valid = True\<rparr>
            else \<lparr>d_val = 0, valid = False\<rparr>)
      else
        (case html_colors_hash html_colornames line of
           Some el \<Rightarrow> el
         | None \<Rightarrow> \<lparr>d_val = 0, valid = False\<rparr>))"

text \<open>
  The background of the document as \<open>rspamd_html_process_part_full\<close> sets it ("Set
  white background color by default"), and the font colour of the last resort in
  \<open>rspamd_html_process_block_tag\<close>.
\<close>

definition default_bgcolor :: html_color where
  "default_bgcolor = \<lparr>d_val = set_comp 0 255 255 255, valid = True\<rparr>"

definition default_font_color :: html_color where
  "default_font_color = \<lparr>d_val = set_comp 255 0 0 0, valid = True\<rparr>"

section \<open>URLs of tags: \<open>rspamd_html_process_url\<close> (libserver/html.c)\<close>

datatype url_flag =
    RSPAMD_URL_FLAG_PHISHED | RSPAMD_URL_FLAG_NUMERIC | RSPAMD_URL_FLAG_OBSCURED
  | RSPAMD_URL_FLAG_UNNORMALISED | RSPAMD_URL_FLAG_SCHEMALESS | RSPAMD_URL_FLAG_HTML_DISPLAYED
  | RSPAMD_URL_FLAG_OTHER

text \<open>
  \<open>struct rspamd_url\<close> as far as this code reads and writes it. The field
  \<open>phished_url\<close> is kept outside, in the result of the phishing check.
\<close>

record rspamd_url =
  url_string :: string
  host :: string
  tld :: string
  url_flags :: "url_flag set"
  url_tags :: "(string \<times> string) list"

text \<open>The zeroed structure that \<open>rspamd_mempool_alloc0\<close> returns.\<close>

definition url_alloc0 :: rspamd_url where
  "url_alloc0 = \<lparr>url_string = [], host = [], tld = [], url_flags = {}, url_tags = []\<rparr>"










section \<open>Phishing: \<open>rspamd_url_is_subdomain\<close> and \<open>rspamd_html_url_is_phished\<close>\<close>

text \<open>
  The pointers of \<open>rspamd_url_is_subdomain\<close> are offsets from \<open>begin\<close>; the offset of an
  empty token's last byte is -1. The first two loops step back over dots at the end.
\<close>

function skip_dots :: "string \<Rightarrow> int \<Rightarrow> int" where
  "skip_dots t p =
     (if p > 0 \<and> nat p < length t \<and> t ! nat p = CHR ''.'' then skip_dots t (p - 1) else p)"
  by pat_completeness auto
termination
  by (relation "measure (\<lambda>(t, p). nat p)") auto

text \<open>The third loop: back while both offsets are above 0 and the bytes agree.\<close>

function cmp_back :: "string \<Rightarrow> string \<Rightarrow> int \<Rightarrow> int \<Rightarrow> int \<times> int" where
  "cmp_back t1 t2 p1 p2 =
     (if p1 > 0 \<and> p2 > 0 \<and> nat p1 < length t1 \<and> nat p2 < length t2
         \<and> t1 ! nat p1 = t2 ! nat p2
      then cmp_back t1 t2 (p1 - 1) (p2 - 1) else (p1, p2))"
  by pat_completeness auto
termination
  by (relation "measure (\<lambda>(t1, t2, p1, p2). nat p1)") auto

text \<open>
  The byte in front of an offset; the code reads it without a test, and for an empty
  token, where it lies in front of the token, the model answers that it is no dot.
\<close>

definition dot_before :: "string \<Rightarrow> int \<Rightarrow> bool" where
  "dot_before t p = (p \<ge> 1 \<and> nat (p - 1) < length t \<and> t ! nat (p - 1) = CHR ''.'')"

definition rspamd_url_is_subdomain :: "string \<Rightarrow> string \<Rightarrow> bool" where
  "rspamd_url_is_subdomain t1 t2 =
     (let p1 = skip_dots t1 (int (length t1) - 1);
          p2 = skip_dots t2 (int (length t2) - 1);
          q = cmp_back t1 t2 p1 p2
      in if snd q = 0 then (fst q \<noteq> 0 \<and> dot_before t1 (fst q))
         else if fst q = 0 then (snd q \<noteq> 0 \<and> dot_before t2 (snd q))
         else False)"

text \<open>
  Modelled from the spec: \<open>rspamd_ftok_casecmp\<close> is defined in libutil/fstring.c, which
  is not among the sources. The spec has host names and TLDs "compared
  case-insensitively": tokens of different lengths differ, tokens of one length are
  compared by \<open>rspamd_lc_cmp\<close>.
\<close>

definition rspamd_ftok_casecmp :: "string \<Rightarrow> string \<Rightarrow> int" where
  "rspamd_ftok_casecmp s1 s2 =
     (if length s1 = length s2 then rspamd_lc_cmp s1 s2 (length s1)
      else int (length s1) - int (length s2))"

text \<open>\<open>rspamd_substring_search_caseless (s, len, "xn--", 4) != -1\<close>.\<close>

fun has_xn :: "string \<Rightarrow> bool" where
  "has_xn [] = False"
| "has_xn (ch # s) = (map g_ascii_tolower (take 4 (ch # s)) = ''xn--'' \<or> has_xn s)"

text \<open>
  One of the four conversions: a token with an \<open>xn--\<close> label is replaced by what
  \<open>uidna_nameToUnicodeUTF8\<close> (the parameter \<open>idna\<close>, \<open>None\<close> for an error) makes of it.
  \<open>uc_err\<close> is never reset, and ICU does nothing once it holds an error: after the first
  error the tokens stay as they are. The state is \<open>uc_err \<noteq> U_ZERO_ERROR\<close>.
\<close>

definition idn_token :: "(string \<Rightarrow> string option) \<Rightarrow> bool \<Rightarrow> string \<Rightarrow> bool \<times> string" where
  "idn_token idna err s =
     (if has_xn s then
        (if err then (True, s)
         else (case idna s of None \<Rightarrow> (True, s) | Some u \<Rightarrow> (False, u)))
      else (err, s))"

text \<open>
  What \<open>rspamd_html_url_is_phished\<close> leaves behind: the target URL, its
  \<open>phished_url\<close>, \<open>*url_found\<close> and \<open>*ptext_url\<close>.
\<close>

record phished_result =
  ph_href :: rspamd_url
  ph_phished_url :: "rspamd_url option"
  ph_url_found :: bool
  ph_text_url :: "rspamd_url option"

definition not_found :: "rspamd_url \<Rightarrow> phished_result" where
  "not_found href_url =
     \<lparr>ph_href = href_url, ph_phished_url = None, ph_url_found = False, ph_text_url = None\<rparr>"

text \<open>
  The comparison of the target URL with the parsed displayed URL (lines 873 to 977):
  hosts, then TLDs, then \<open>rspamd_url_is_subdomain\<close> on the two TLD tokens. The tag
  \<open>phishing\<close> carries the TLD token of the target.
\<close>

definition compare_urls ::
    "(string \<Rightarrow> string option) \<Rightarrow> rspamd_url \<Rightarrow> rspamd_url \<Rightarrow> phished_result" where
  "compare_urls idna href_url text_url =
     (let d1 = idn_token idna False (host text_url);
          h1 = idn_token idna (fst d1) (host href_url);
          d2 = idn_token idna (fst h1) (tld text_url);
          h2 = idn_token idna (fst d2) (tld href_url)
      in if rspamd_ftok_casecmp (snd d1) (snd h1) \<noteq> 0
            \<and> rspamd_ftok_casecmp (snd d2) (snd h2) \<noteq> 0
            \<and> \<not> rspamd_url_is_subdomain (snd d2) (snd h2)
         then
           (let text_url1 = text_url\<lparr>url_tags := url_tags text_url @ [(''phishing'', snd h2)],
                  url_flags := insert RSPAMD_URL_FLAG_HTML_DISPLAYED (url_flags text_url)\<rparr>
            in \<lparr>ph_href = href_url\<lparr>url_flags := insert RSPAMD_URL_FLAG_PHISHED (url_flags href_url)\<rparr>,
                ph_phished_url = Some text_url1, ph_url_found = True, ph_text_url = Some text_url1\<rparr>)
         else
           \<lparr>ph_href = href_url, ph_phished_url = None, ph_url_found = True,
            ph_text_url = Some text_url\<rparr>)"

text \<open>
  \<open>rspamd_html_url_is_phished\<close>. \<open>url_find\<close> is \<open>rspamd_url_find\<close> (the URL string and
  its offset in the text, or \<open>None\<close>) and \<open>parse\<close> is \<open>rspamd_url_parse\<close>, both outside
  this core. The text must have more than 4 bytes behind its leading white space, and
  only white space in front of the URL that is found.
\<close>

definition rspamd_html_url_is_phished ::
    "(string \<Rightarrow> (string \<times> nat) option) \<Rightarrow> (rspamd_url \<Rightarrow> string \<Rightarrow> rspamd_url option)
       \<Rightarrow> (string \<Rightarrow> string option) \<Rightarrow> rspamd_url \<Rightarrow> string \<Rightarrow> phished_result" where
  "rspamd_html_url_is_phished url_find parse idna href_url url_text =
     (let text = dropWhile g_ascii_isspace url_text in
      if length text > 4 then
        (case url_find text of
           None \<Rightarrow> not_found href_url
         | Some found \<Rightarrow>
             if snd found > 0 \<and> \<not> list_all g_ascii_isspace (take (snd found) text)
             then not_found href_url
             else (case parse url_alloc0 (fst found) of
                     None \<Rightarrow> not_found href_url
                   | Some text_url \<Rightarrow> compare_urls idna href_url text_url))
      else not_found href_url)"

section \<open>Library lemmas\<close>

declare bsearch_loop.simps [simp del]
declare decode_loop.simps [simp del]
declare lev_inner.simps [simp del]
declare lev_outer.simps [simp del]
declare skip_dots.simps [simp del]
declare cmp_back.simps [simp del]
declare rgb_loop.simps [simp del]

lemma bsearch_loop_Some:
  "bsearch_loop cmp key base l u = Some x \<Longrightarrow> u \<le> length base \<Longrightarrow>
   x \<in> set base \<and> cmp key x = 0"
proof (induction cmp key base l u rule: bsearch_loop.induct)
  case (1 cmp key base l u)
  show ?case
  proof (cases "l < u")
    case False
    with "1.prems"(1) show ?thesis by (simp add: bsearch_loop.simps)
  next
    case True
    define idx where "idx = (l + u) div 2"
    have idx: "idx < u" "l \<le> idx" using True by (auto simp: idx_def)
    consider (lt) "cmp key (base ! idx) < 0" | (gt) "cmp key (base ! idx) > 0"
      | (eq) "cmp key (base ! idx) = 0" by linarith
    then show ?thesis
    proof cases
      case lt
      then have "bsearch_loop cmp key base l idx = Some x"
        using "1.prems"(1) True by (subst (asm) bsearch_loop.simps) (simp add: Let_def idx_def)
      then show ?thesis
        using "1.IH"(1)[OF True idx_def refl lt] "1.prems"(2) idx by simp
    next
      case gt
      then have "bsearch_loop cmp key base (idx + 1) u = Some x"
        using "1.prems"(1) True by (subst (asm) bsearch_loop.simps) (simp add: Let_def idx_def)
      moreover have "\<not> cmp key (base ! idx) < 0" using gt by simp
      ultimately show ?thesis
        using "1.IH"(2)[OF True idx_def refl _ gt] "1.prems"(2) by simp
    next
      case eq
      then have "x = base ! idx"
        using "1.prems"(1) True by (subst (asm) bsearch_loop.simps) (simp add: Let_def idx_def)
      then show ?thesis using eq idx "1.prems"(2) by simp
    qed
  qed
qed

lemma bsearch_loop_complete:
  fixes f :: "'a \<Rightarrow> 'o::linorder"
  assumes "sorted (map f base)" and "u \<le> length base"
    and "\<forall>y\<in>set base. (cmp key y < 0 \<longleftrightarrow> kf < f y) \<and> (cmp key y > 0 \<longleftrightarrow> f y < kf)"
    and "\<exists>i. l \<le> i \<and> i < u \<and> f (base ! i) = kf"
  shows "\<exists>y. bsearch_loop cmp key base l u = Some y \<and> y \<in> set base \<and> f y = kf"
  using assms
proof (induction cmp key base l u rule: bsearch_loop.induct)
  case (1 cmp key base l u)
  from "1.prems"(4) obtain i where i: "l \<le> i" "i < u" "f (base ! i) = kf" by blast
  then have True: "l < u" by simp
  define idx where "idx = (l + u) div 2"
  have idx: "idx < u" "l \<le> idx" using True by (auto simp: idx_def)
  have inb: "base ! idx \<in> set base" using idx "1.prems"(2) by simp
  have srt: "f (base ! a) \<le> f (base ! b)" if "a \<le> b" "b < length base" for a b
    using sorted_nth_mono[OF "1.prems"(1), of a b] that by simp
  consider (lt) "cmp key (base ! idx) < 0" | (gt) "cmp key (base ! idx) > 0"
    | (eq) "cmp key (base ! idx) = 0" by linarith
  then show ?case
  proof cases
    case lt
    then have k: "kf < f (base ! idx)" using "1.prems"(3) inb by blast
    have "i < idx"
    proof (rule ccontr)
      assume "\<not> i < idx"
      then have "f (base ! idx) \<le> f (base ! i)" using srt[of idx i] i "1.prems"(2) by simp
      with k i show False by simp
    qed
    then have ex: "\<exists>i. l \<le> i \<and> i < idx \<and> f (base ! i) = kf" using i by blast
    have eq: "bsearch_loop cmp key base l u = bsearch_loop cmp key base l idx"
      using lt True by (subst bsearch_loop.simps) (simp add: Let_def idx_def)
    have "idx \<le> length base" using idx "1.prems"(2) by simp
    from "1.IH"(1)[OF True idx_def refl lt "1.prems"(1) this "1.prems"(3) ex] eq
    show ?thesis by simp
  next
    case gt
    then have k: "f (base ! idx) < kf" using "1.prems"(3) inb by blast
    have "idx < i"
    proof (rule ccontr)
      assume "\<not> idx < i"
      then have "f (base ! i) \<le> f (base ! idx)" using srt[of i idx] idx "1.prems"(2) by simp
      with k i show False by simp
    qed
    then have ex: "\<exists>i. idx + 1 \<le> i \<and> i < u \<and> f (base ! i) = kf" using i by (intro exI[of _ i]) auto
    have nlt: "\<not> cmp key (base ! idx) < 0" using gt by simp
    have eq: "bsearch_loop cmp key base l u = bsearch_loop cmp key base (idx + 1) u"
      using gt True by (subst bsearch_loop.simps) (simp add: Let_def idx_def)
    from "1.IH"(2)[OF True idx_def refl nlt gt "1.prems"(1) "1.prems"(2) "1.prems"(3) ex] eq
    show ?thesis by simp
  next
    case eq
    then have "\<not> kf < f (base ! idx)" "\<not> f (base ! idx) < kf"
      using "1.prems"(3) inb by auto
    then have "f (base ! idx) = kf" by simp
    moreover have "bsearch_loop cmp key base l u = Some (base ! idx)"
      using eq True by (subst bsearch_loop.simps) (simp add: Let_def idx_def)
    ultimately show ?thesis using inb by simp
  qed
qed

lemma set_qsort_insert: "set (qsort_insert cmp x ys) = insert x (set ys)"
  by (induction ys) auto

lemma set_qsort: "set (qsort cmp xs) = set xs"
  by (induction xs) (auto simp: qsort_def set_qsort_insert)

lemma length_qsort_insert: "length (qsort_insert cmp x ys) = Suc (length ys)"
  by (induction ys) auto

lemma sorted_qsort_insert:
  fixes f :: "'a \<Rightarrow> 'o::linorder"
  assumes "\<forall>b\<in>set ys. (cmp x b \<le> 0 \<longleftrightarrow> f x \<le> f b)" and "sorted (map f ys)"
  shows "sorted (map f (qsort_insert cmp x ys))"
  using assms
proof (induction ys)
  case Nil
  then show ?case by simp
next
  case (Cons y ys)
  show ?case
  proof (cases "cmp x y \<le> 0")
    case True
    then have "f x \<le> f y" using Cons.prems(1) by simp
    then show ?thesis using True Cons.prems(2) by auto
  next
    case False
    then have "f y \<le> f x" using Cons.prems(1) by auto
    moreover have "sorted (map f (qsort_insert cmp x ys))"
      using Cons by simp
    ultimately show ?thesis using False Cons.prems(2)
      by (auto simp: set_qsort_insert)
  qed
qed

lemma sorted_qsort:
  fixes f :: "'a \<Rightarrow> 'o::linorder"
  assumes "\<forall>a\<in>set xs. \<forall>b\<in>set xs. (cmp a b \<le> 0 \<longleftrightarrow> f a \<le> f b)"
  shows "sorted (map f (qsort cmp xs))"
  using assms
proof (induction xs)
  case Nil
  then show ?case by (simp add: qsort_def)
next
  case (Cons x xs)
  have "sorted (map f (qsort cmp xs))" using Cons by simp
  moreover have "\<forall>b\<in>set (qsort cmp xs). (cmp x b \<le> 0 \<longleftrightarrow> f x \<le> f b)"
    using Cons.prems by (simp add: set_qsort)
  ultimately have "sorted (map f (qsort_insert cmp x (qsort cmp xs)))"
    by (rule sorted_qsort_insert[rotated])
  then show ?case by (simp add: qsort_def)
qed

lemma of_char_eq_0: "(of_char c = (0::nat)) = (c = NUL)"
proof -
  have "of_char NUL = (0::nat)" by (simp add: NUL_def)
  then show ?thesis by (metis of_char_eq_iff)
qed


lemma strcasecmp_sign:
  "NUL \<notin> set a \<Longrightarrow> NUL \<notin> set b \<Longrightarrow>
   (g_ascii_strcasecmp a b < 0 \<longleftrightarrow> lcn a < lcn b) \<and>
   (g_ascii_strcasecmp a b > 0 \<longleftrightarrow> lcn b < lcn a)"
proof (induction a b rule: g_ascii_strcasecmp.induct)
  case 1
  then show ?case by (simp add: lcn_def)
next
  case (2 b d)
  then have "of_char b \<noteq> (0::nat)" by (auto simp: of_char_eq_0)
  then show ?case by (simp add: lcn_def)
next
  case (3 a s)
  then have "of_char a \<noteq> (0::nat)" by (auto simp: of_char_eq_0)
  then show ?case by (simp add: lcn_def)
next
  case (4 a s b d)
  show ?case
  proof (cases "of_char (g_ascii_tolower a) = (of_char (g_ascii_tolower b) :: nat)")
    case True
    then show ?thesis using 4 by (simp add: lcn_def Let_def)
  next
    case False
    then show ?thesis by (auto simp: lcn_def Let_def)
  qed
qed

lemma entity_names_no_NUL_all: "list_all (\<lambda>x. NUL \<notin> set (name x)) entities_defs"
  by (simp add: entities_defs_def ENT_def NUL_def)

lemma entity_names_no_NUL: "\<forall>x\<in>set entities_defs. NUL \<notin> set (name x)"
  using entity_names_no_NUL_all by (simp only: list_all_iff)

lemma entity_cmp_le:
  "a \<in> set entities_defs \<Longrightarrow> b \<in> set entities_defs \<Longrightarrow>
   (entity_cmp a b \<le> 0) = (lcn (name a) \<le> lcn (name b))"
  using strcasecmp_sign[of "name a" "name b"] entity_names_no_NUL
  by (auto simp: entity_cmp_def)

lemma entities_sorted: "sorted (map (\<lambda>x. lcn (name x)) entities_defs_sorted)"
  unfolding entities_defs_sorted_def
  by (rule sorted_qsort) (simp add: entity_cmp_le)

lemma entity_by_name:
  assumes "ent \<in> set entities_defs" and "NUL \<notin> set nm" and "lcn nm = lcn (name ent)"
  shows "\<exists>y. bsearch entity_cmp (ENT nm c r) entities_defs_sorted = Some y
             \<and> y \<in> set entities_defs \<and> lcn (name y) = lcn nm"
proof -
  have cmp: "\<forall>y\<in>set entities_defs_sorted.
      (entity_cmp (ENT nm c r) y < 0 \<longleftrightarrow> lcn nm < lcn (name y)) \<and>
      (entity_cmp (ENT nm c r) y > 0 \<longleftrightarrow> lcn (name y) < lcn nm)"
    using strcasecmp_sign[OF assms(2)] entity_names_no_NUL
    by (simp add: entity_cmp_def ENT_def entities_defs_sorted_def set_qsort)
  have "ent \<in> set entities_defs_sorted"
    using assms(1) by (simp add: entities_defs_sorted_def set_qsort)
  then obtain i where "i < length entities_defs_sorted" "entities_defs_sorted ! i = ent"
    by (auto simp: in_set_conv_nth)
  then have ex: "\<exists>i. 0 \<le> i \<and> i < length entities_defs_sorted
      \<and> lcn (name (entities_defs_sorted ! i)) = lcn nm"
    using assms(3) by auto
  have len: "length entities_defs_sorted \<le> length entities_defs_sorted" by simp
  from bsearch_loop_complete[where f = "\<lambda>x. lcn (name x)" and kf = "lcn nm"
      and base = entities_defs_sorted and u = "length entities_defs_sorted" and l = 0
      and cmp = entity_cmp and key = "ENT nm c r", OF entities_sorted len cmp ex]
  show ?thesis by (simp add: bsearch_def entities_defs_sorted_def set_qsort)
qed


lemma to_gint_small:
  assumes "- (2 ^ 31) \<le> d" and "d < 2 ^ 31"
  shows "to_gint d = d"
proof (cases "0 \<le> d")
  case True
  then have "d mod 2 ^ 32 = d" using assms(2) by (intro mod_pos_pos_trivial) auto
  then show ?thesis using assms(2) by (simp add: to_gint_def Let_def)
next
  case False
  have "(d + 2 ^ 32) mod 2 ^ 32 = d + 2 ^ 32"
    using False assms(1) by (intro mod_pos_pos_trivial) auto
  then have "d mod 2 ^ 32 = d + 2 ^ 32" by simp
  then show ?thesis using assms(1) by (simp add: to_gint_def Let_def)
qed

lemma to_gint_zero:
  assumes "- (2 ^ 32) < d" and "d < 2 ^ 32" and "to_gint d = 0"
  shows "d = 0"
proof -
  have m: "d mod 2 ^ 32 < 2 ^ 32" by simp
  have z: "d mod 2 ^ 32 = 0"
    using assms(3) m by (auto simp: to_gint_def Let_def split: if_splits)
  show ?thesis
  proof (cases "0 \<le> d")
    case True
    then have "d mod 2 ^ 32 = d" using assms(2) by (intro mod_pos_pos_trivial) auto
    with z show ?thesis by simp
  next
    case False
    have "(d + 2 ^ 32) mod 2 ^ 32 = d + 2 ^ 32"
      using False assms(1) by (intro mod_pos_pos_trivial) auto
    then have "d mod 2 ^ 32 = d + 2 ^ 32" by simp
    with z assms(1) show ?thesis by simp
  qed
qed

lemma entity_codes_small_all: "list_all (\<lambda>x. code x < 2 ^ 31) entities_defs"
  by (simp add: entities_defs_def ENT_def)

lemma entity_codes_small: "x \<in> set entities_defs \<Longrightarrow> code x < 2 ^ 31"
  using entity_codes_small_all by (simp only: list_all_iff)

lemma set_entities_defs_num: "set entities_defs_num = set entities_defs"
  by (simp add: entities_defs_num_def entities_defs_sorted_def set_qsort)

lemma entity_cmp_num_sign:
  assumes "v < 2 ^ 31" and "y \<in> set entities_defs"
  shows "(entity_cmp_num (ENT nm v r) y < 0 \<longleftrightarrow> v < code y) \<and>
         (entity_cmp_num (ENT nm v r) y > 0 \<longleftrightarrow> code y < v)"
proof -
  have c: "code y < 2 ^ 31" using assms(2) by (rule entity_codes_small)
  have "to_gint (int v - int (code y)) = int v - int (code y)"
    using assms(1) c by (intro to_gint_small) auto
  then show ?thesis by (auto simp: entity_cmp_num_def ENT_def)
qed

lemma entities_num_sorted: "sorted (map code entities_defs_num)"
  unfolding entities_defs_num_def
proof (rule sorted_qsort, intro ballI)
  fix a b
  assume "a \<in> set entities_defs_sorted" "b \<in> set entities_defs_sorted"
  then have ab: "a \<in> set entities_defs" "b \<in> set entities_defs"
    by (simp_all add: entities_defs_sorted_def set_qsort)
  have "to_gint (int (code a) - int (code b)) = int (code a) - int (code b)"
    using entity_codes_small[OF ab(1)] entity_codes_small[OF ab(2)]
    by (intro to_gint_small) auto
  then show "(entity_cmp_num a b \<le> 0) = (code a \<le> code b)"
    by (auto simp: entity_cmp_num_def)
qed

lemma entity_by_code:
  assumes "ent \<in> set entities_defs" and "code ent = v"
  shows "\<exists>y. bsearch entity_cmp_num (ENT nm v r) entities_defs_num = Some y
             \<and> y \<in> set entities_defs \<and> code y = v"
proof -
  have v: "v < 2 ^ 31" using entity_codes_small[OF assms(1)] assms(2) by simp
  have cmp: "\<forall>y\<in>set entities_defs_num.
      (entity_cmp_num (ENT nm v r) y < 0 \<longleftrightarrow> v < code y) \<and>
      (entity_cmp_num (ENT nm v r) y > 0 \<longleftrightarrow> code y < v)"
    using entity_cmp_num_sign[OF v] by (simp add: set_entities_defs_num)
  have "ent \<in> set entities_defs_num" using assms(1) by (simp add: set_entities_defs_num)
  then obtain i where "i < length entities_defs_num" "entities_defs_num ! i = ent"
    by (auto simp: in_set_conv_nth)
  then have ex: "\<exists>i. 0 \<le> i \<and> i < length entities_defs_num \<and> code (entities_defs_num ! i) = v"
    using assms(2) by auto
  have len: "length entities_defs_num \<le> length entities_defs_num" by simp
  from bsearch_loop_complete[where f = code and kf = v
      and base = entities_defs_num and u = "length entities_defs_num" and l = 0
      and cmp = entity_cmp_num and key = "ENT nm v r", OF entities_num_sorted len cmp ex]
  show ?thesis by (simp add: bsearch_def set_entities_defs_num)
qed

lemma entity_by_code_None:
  assumes "v < 2 ^ 32" and "\<forall>y\<in>set entities_defs. code y \<noteq> v"
  shows "bsearch entity_cmp_num (ENT nm v r) entities_defs_num = None"
proof (rule ccontr)
  assume "bsearch entity_cmp_num (ENT nm v r) entities_defs_num \<noteq> None"
  then obtain y where y: "bsearch_loop entity_cmp_num (ENT nm v r) entities_defs_num 0
      (length entities_defs_num) = Some y"
    by (auto simp: bsearch_def)
  from bsearch_loop_Some[OF y] have yin: "y \<in> set entities_defs"
    and z: "entity_cmp_num (ENT nm v r) y = 0"
    by (simp_all add: set_entities_defs_num)
  have c: "code y < 2 ^ 31" using yin by (rule entity_codes_small)
  have lo: "- (2 ^ 32) < int v - int (code y)" using c by simp
  have hi: "int v - int (code y) < 2 ^ 32" using assms(1) by simp
  have "to_gint (int v - int (code y)) = 0" using z by (simp add: entity_cmp_num_def ENT_def)
  from to_gint_zero[OF lo hi this] have "int v - int (code y) = 0" .
  then show False using assms(2) yin by auto
qed

section \<open>Theorems: entity decoding\<close>

lemma Suc_Suc_0: "Suc (Suc 0) = 2"
  by simp

lemma ENT_sel: "name (ENT n c r) = n" "code (ENT n c r) = c" "replacement (ENT n c r) = r"
  by (simp_all add: ENT_def)

lemmas strtoul_eval = strtoul_def digit_val_def isspace_def g_ascii_isspace_def ULONG_MAX_def
  NUL_def Let_def

lemma curren_unique_all:
  "list_all (\<lambda>y. code y = 164 \<longrightarrow> y = ENT ''curren'' 164 (Some ''current'')) entities_defs"
  by (simp add: entities_defs_def ENT_def)

lemma curren_in: "ENT ''curren'' 164 (Some ''current'') \<in> set entities_defs"
  by (simp add: entities_defs_def)

lemma lookup_164:
  "bsearch entity_cmp_num (ENT [] 164 None) entities_defs_num = Some (ENT ''curren'' 164 (Some ''current''))"
proof -
  have "code (ENT ''curren'' 164 (Some ''current'')) = 164" by (simp add: ENT_def)
  from entity_by_code[OF curren_in this, of "[]" None]
  obtain y where y: "bsearch entity_cmp_num (ENT [] 164 None) entities_defs_num = Some y"
    "y \<in> set entities_defs" "code y = 164" by blast
  then have "y = ENT ''curren'' 164 (Some ''current'')"
    using curren_unique_all unfolding list_all_iff by blast
  with y(1) show ?thesis by simp
qed

lemma strtoul_164: "strtoul ''164'' 10 = (164, 3)"
  by (simp add: strtoul_eval)

lemma numeric_164:
  "decode_numeric isgraph [CHR ''&'', CHR ''#'', CHR ''1'', CHR ''6'', CHR ''4'', NUL] 0 0 5
     = (''current'', 7)"
  by (simp add: decode_numeric_def cstr_at_def strtoul_164 lookup_164 ENT_sel
      put_replacement_def poke_def Let_def NUL_def split del: if_split)

lemma entity_164: "decode_entity isgraph ''&#164;'' 0 0 5 = (''curre;t'', 7)"
  by (simp add: decode_entity_def numeric_164 poke_def Let_def split del: if_split)


text \<open>
  C2. The claim: for every buffer and length the decoder returns a length that is at
  most the input length. The numeric branch looks the code point up in the table and
  copies the replacement without comparing its length with the length of the token:
  \<open>&#164;\<close> has 6 bytes and its replacement \<open>current\<close> has 7. On that buffer with
  \<open>len = 6\<close> the function returns 7, having stored one byte behind the buffer.
\<close>

theorem decode_entitles_numeric_curren_grows:
  "rspamd_html_decode_entitles_inplace isgraph ''&#164;'' 6 = (7, ''curre;t'')"
  by (simp add: rspamd_html_decode_entitles_inplace_def decode_loop.simps entity_164 Suc_Suc_0
      split del: if_split)

lemma shy_unique_all:
  "list_all (\<lambda>y. lcn (name y) = lcn ''shy'' \<longrightarrow> y = ENT ''shy'' 173 None) entities_defs"
  by (simp add: entities_defs_def ENT_def lcn_def g_ascii_tolower_def char_of_def bit_Suc_0_iff)

lemma shy_in: "ENT ''shy'' 173 None \<in> set entities_defs"
  by (simp add: entities_defs_def)

lemma lookup_shy:
  "bsearch entity_cmp (ENT ''shy'' 0 None) entities_defs_sorted = Some (ENT ''shy'' 173 None)"
proof -
  have n: "NUL \<notin> set ''shy''" by (simp add: NUL_def)
  have "lcn ''shy'' = lcn (name (ENT ''shy'' 173 None))" by (simp add: ENT_def)
  from entity_by_name[OF shy_in n this, of 0 None]
  obtain y where y: "bsearch entity_cmp (ENT ''shy'' 0 None) entities_defs_sorted = Some y"
    "y \<in> set entities_defs" "lcn (name y) = lcn ''shy''" by blast
  then have "y = ENT ''shy'' 173 None"
    using shy_unique_all unfolding list_all_iff by blast
  with y(1) show ?thesis by simp
qed

lemma entity_shy: "decode_entity isgraph ''&shy;x'' 0 0 4 = (''&shy;x'', 4)"
  by (simp add: decode_entity_def cstr_at_def lookup_shy ENT_sel pass_through_def poke_def
      Let_def NUL_def split del: if_split)

lemma decode_shy: "rspamd_html_decode_entitles_inplace isgraph ''&shy;x'' 6 = (5, ''&shyxx'')"
  by (simp add: rspamd_html_decode_entitles_inplace_def decode_loop.simps entity_shy Suc_Suc_0
      poke_def split del: if_split)

lemma strtoul_12a: "strtoul ''12a'' 10 = (12, 2)"
  by (simp add: strtoul_eval)

lemma numeric_12a:
  "decode_numeric isgraph [CHR ''&'', CHR ''#'', CHR ''1'', CHR ''2'', CHR ''a'', NUL, CHR ''x''] 0 0 5
     = ([CHR ''&'', CHR ''#'', CHR ''1'', CHR ''2'', CHR ''a'', NUL, CHR ''x''], 5)"
  by (simp add: decode_numeric_def cstr_at_def strtoul_12a pass_through_def poke_def Let_def
      NUL_def split del: if_split)

lemma entity_12a: "decode_entity isgraph ''&#12a;x'' 0 0 5 = (''&#12a;x'', 5)"
  by (simp add: decode_entity_def numeric_12a poke_def Let_def split del: if_split)

lemma decode_12a: "rspamd_html_decode_entitles_inplace isgraph ''&#12a;x'' 7 = (6, ''&#12axx'')"
  by (simp add: rspamd_html_decode_entitles_inplace_def decode_loop.simps entity_12a Suc_Suc_0
      poke_def split del: if_split)

text \<open>
  C5. The claim: a named entity without replacement and a numeric token with trailing
  garbage appear in the output unchanged, from the ampersand through the semicolon.
  Both branches copy \<open>h - e\<close> bytes starting at the ampersand, which stops in front of
  the semicolon at \<open>h\<close>, and the loop then steps over the semicolon: \<open>&shy;x\<close> decodes
  to \<open>&shyx\<close> and \<open>&#12a;x\<close> to \<open>&#12ax\<close>.
\<close>

theorem decode_entitles_pass_through_drops_semicolon:
  "decoded_text isgraph ''&shy;x'' 6 = ''&shyx''
   \<and> decoded_text isgraph ''&#12a;x'' 7 = ''&#12ax''"
  by (simp add: decoded_text_def decode_shy decode_12a)

section \<open>Theorems: part similarity\<close>

text \<open>
  C3. The claim: the function computes the edit distance in which a substitution of two
  differing hashes costs 2 and an insertion or deletion costs 1, so that two sequences of
  length 5 differing in 3 corresponding positions are at distance 6 and two identical
  sequences are at distance 0. The code adds \<open>eq * 2\<close> to the diagonal, where \<open>eq\<close> is 1
  when the hashes are equal: equal hashes cost 2 and differing hashes cost nothing. On
  the sequences \<open>1,2,3,4,5\<close> and \<open>1,12,13,14,5\<close> the code returns 2, on two copies of
  \<open>1,2,3,4,5\<close> it returns 2, and on two copies of the one-word sequence \<open>7\<close> it returns 2.
\<close>

theorem levenshtein_distance_inverted_cost:
  "rspamd_words_levenshtein_distance [1, 2, 3, 4, 5] [1, 12, 13, 14, 5] = 2
   \<and> rspamd_words_levenshtein_distance [1, 2, 3, 4, 5] [1, 2, 3, 4, 5] = 2
   \<and> rspamd_words_levenshtein_distance [7] [7] = 2
   \<and> rspamd_words_levenshtein_distance [7] [8] = 0"
  by (simp add: rspamd_words_levenshtein_distance_def max_words_def MIN3_def
      lev_inner.simps lev_outer.simps)

section \<open>Theorems: the tag tree\<close>

declare find_open.simps [simp del]

lemma filter_update_same:
  "P y = P (xs ! i) \<Longrightarrow> length (filter P (xs[i := y])) = length (filter P xs)"
proof (induction xs arbitrary: i)
  case Nil
  then show ?case by simp
next
  case (Cons x xs)
  then show ?case by (cases i) auto
qed

lemma tag_count_close_node:
  "length (filter is_tag_node (close_node nodes cur)) = length (filter is_tag_node nodes)"
  unfolding close_node_def
  by (rule filter_update_same) (cases "node_data (nodes ! cur)"; simp add: is_tag_node_def)

lemma tag_count_add_content_length:
  "length (filter is_tag_node (add_content_length nodes lvl k)) = length (filter is_tag_node nodes)"
  unfolding add_content_length_def
  by (rule filter_update_same) (cases "node_data (nodes ! lvl)"; simp add: is_tag_node_def)

lemma tag_count_take: "length (filter P (take n xs)) \<le> length (filter P xs)"
  by (metis append_take_drop_id filter_append length_append le_add1)

lemma is_tag_node_new [simp]: "is_tag_node (new_node t p)"
  by (simp add: is_tag_node_def new_node_def)

lemma check_balance_count:
  "length (filter is_tag_node (fst (snd (rspamd_html_check_balance nodes node cl))))
   \<le> length (filter is_tag_node nodes)"
proof -
  have "length (filter is_tag_node (take node (close_node nodes cur))) \<le> length (filter is_tag_node nodes)"
    for cur
    using tag_count_take[of is_tag_node node "close_node nodes cur"]
    by (simp add: tag_count_close_node)
  then show ?thesis
    by (auto simp: rspamd_html_check_balance_def g_node_destroy_def split: option.splits)
qed

lemma cap_inv_closing: "cap_inv hc \<Longrightarrow> cap_inv (res_hc (process_closing hc tag cl b))"
proof -
  assume a: "cap_inv hc"
  have c: "length (filter is_tag_node
      (fst (snd (rspamd_html_check_balance (html_tags hc @ [new_node tag cl]) (length (html_tags hc)) cl))))
     \<le> Suc (tag_nodes hc)"
    using check_balance_count[of "html_tags hc @ [new_node tag cl]" "length (html_tags hc)" cl]
    by (simp add: tag_nodes_def)
  show ?thesis using a c
    by (auto simp: process_closing_def cap_inv_def tag_nodes_def Let_def add_flag_def)
qed

lemma cap_inv_attach: "cap_inv hc \<Longrightarrow> cap_inv (res_hc (attach hc tag cl b))"
  by (auto simp: attach_def cap_inv_def tag_nodes_def Let_def)

lemma cap_inv_bad_nesting: "cap_inv hc \<Longrightarrow> cap_inv (res_hc (bad_nesting hc tag par cl))"
  by (auto simp: bad_nesting_def cap_inv_def tag_nodes_def Let_def add_flag_def)

lemma cap_inv_opening: "cap_inv hc \<Longrightarrow> cap_inv (res_hc (process_opening hc tag cl b))"
proof -
  assume a: "cap_inv hc"
  have "cap_inv (hc\<lparr>html_tags := add_content_length (html_tags hc) lvl k\<rparr>)" for lvl k
    using a by (simp add: cap_inv_def tag_nodes_def tag_count_add_content_length)
  then show ?thesis using a
    by (auto simp: process_opening_def Let_def cap_inv_attach cap_inv_bad_nesting
        split: option.splits)
qed

lemma cap_inv_inline: "cap_inv hc \<Longrightarrow> cap_inv (res_hc (process_inline hc tag cl b))"
  by (simp add: process_inline_def Let_def)

lemma cap_inv_process_tag:
  "cap_inv hc \<Longrightarrow> cap_inv (res_hc (rspamd_html_process_tag hc tag cl b))"
proof -
  assume a: "cap_inv hc"
  define hc1 where "hc1 = (if html_tags hc = []
                 then hc\<lparr>html_tags := [\<lparr>node_data = None, node_parent = None\<rparr>]\<rparr> else hc)"
  define hc2 where "hc2 = (if total_tags hc1 > max_tags
                 then add_flag hc1 RSPAMD_HTML_FLAG_TOO_MANY_TAGS else hc1)"
  have "cap_inv hc1" using a by (auto simp: hc1_def cap_inv_def tag_nodes_def is_tag_node_def)
  then have h2: "cap_inv hc2" by (auto simp: hc2_def cap_inv_def tag_nodes_def add_flag_def)
  then have "cap_inv (hc2\<lparr>total_tags := total_tags hc2 + 1\<rparr>)"
    by (auto simp: cap_inv_def tag_nodes_def)
  then show ?thesis using h2
    unfolding rspamd_html_process_tag_def Let_def hc1_def[symmetric] hc2_def[symmetric]
    by (auto simp: cap_inv_closing cap_inv_opening cap_inv_inline)
qed

lemma cap_inv_tag_end: "cap_inv (fst st) \<Longrightarrow> cap_inv (fst (tag_end N st t))"
proof -
  assume a: "cap_inv (fst st)"
  have "cap_inv (res_hc (rspamd_html_process_tag (fst st) t (snd st) True))"
    using a by (rule cap_inv_process_tag)
  then show ?thesis
    by (auto simp: tag_end_def Let_def cap_inv_def tag_nodes_def add_flag_def)
qed

lemma cap_inv_foldl: "cap_inv (fst st) \<Longrightarrow> cap_inv (fst (foldl (tag_end N) st tags))"
  by (induction tags arbitrary: st) (auto simp: cap_inv_tag_end)


lemma frame_closing: "frame hc (res_hc (process_closing hc tag cl b))"
  by (auto simp: frame_def process_closing_def Let_def add_flag_def)

lemma frame_attach: "frame hc (res_hc (attach hc tag cl b))"
  by (auto simp: frame_def attach_def Let_def)

lemma frame_bad_nesting: "frame hc (res_hc (bad_nesting hc tag par cl))"
  by (auto simp: frame_def bad_nesting_def Let_def add_flag_def)

lemma frame_opening: "frame hc (res_hc (process_opening hc tag cl b))"
proof -
  have "frame hc (res_hc (attach (hc\<lparr>html_tags := ns\<rparr>) t c b))" for ns t c
    using frame_attach[of "hc\<lparr>html_tags := ns\<rparr>" t c b] by (simp add: frame_def)
  then show ?thesis
    by (auto simp: process_opening_def Let_def frame_attach frame_bad_nesting split: option.splits)
       (auto simp: frame_def)
qed

lemma frame_inline: "frame hc (res_hc (process_inline hc tag cl b))"
  by (auto simp: frame_def process_inline_def Let_def)

lemma known_tag_no_flag:
  assumes "tag_id tag \<noteq> - 1" and "total_tags hc \<le> max_tags"
    and "RSPAMD_HTML_FLAG_TOO_MANY_TAGS \<notin> hc_flags hc"
  shows "total_tags (res_hc (rspamd_html_process_tag hc tag cl b)) \<le> max_tags
     \<and> RSPAMD_HTML_FLAG_TOO_MANY_TAGS \<notin> hc_flags (res_hc (rspamd_html_process_tag hc tag cl b))"
proof -
  define hc1 where "hc1 = (if html_tags hc = []
                 then hc\<lparr>html_tags := [\<lparr>node_data = None, node_parent = None\<rparr>]\<rparr> else hc)"
  have h1: "total_tags hc1 \<le> max_tags" "RSPAMD_HTML_FLAG_TOO_MANY_TAGS \<notin> hc_flags hc1"
    using assms by (auto simp: hc1_def)
  have fr: "frame hc1 hc' \<Longrightarrow> total_tags hc' \<le> max_tags
      \<and> RSPAMD_HTML_FLAG_TOO_MANY_TAGS \<notin> hc_flags hc'" for hc'
    using h1 by (auto simp: frame_def)
  have "\<not> total_tags hc1 > max_tags" using h1 by simp
  then show ?thesis
    using assms(1)
    unfolding rspamd_html_process_tag_def Let_def hc1_def[symmetric]
    by (auto intro!: fr frame_closing frame_opening frame_inline simp del: not_less)
qed

lemma known_tag_end:
  assumes "tag_id tag \<noteq> - 1" and "total_tags (fst st) \<le> max_tags"
    and "RSPAMD_HTML_FLAG_TOO_MANY_TAGS \<notin> hc_flags (fst st)"
  shows "total_tags (fst (tag_end N st tag)) \<le> max_tags
     \<and> RSPAMD_HTML_FLAG_TOO_MANY_TAGS \<notin> hc_flags (fst (tag_end N st tag))"
  using known_tag_no_flag[OF assms, of "snd st" True]
  by (auto simp: tag_end_def Let_def add_flag_def)

lemma known_tags_foldl:
  assumes "\<forall>t\<in>set tags. tag_id t \<noteq> - 1" and "total_tags (fst st) \<le> max_tags"
    and "RSPAMD_HTML_FLAG_TOO_MANY_TAGS \<notin> hc_flags (fst st)"
  shows "total_tags (fst (foldl (tag_end N) st tags)) \<le> max_tags
     \<and> RSPAMD_HTML_FLAG_TOO_MANY_TAGS \<notin> hc_flags (fst (foldl (tag_end N) st tags))"
  using assms
proof (induction tags arbitrary: st)
  case Nil
  then show ?case by simp
next
  case (Cons t ts)
  have "total_tags (fst (tag_end N st t)) \<le> max_tags
     \<and> RSPAMD_HTML_FLAG_TOO_MANY_TAGS \<notin> hc_flags (fst (tag_end N st t))"
    using Cons.prems by (intro known_tag_end) auto
  then show ?case using Cons.IH[of "tag_end N st t"] Cons.prems(1) by simp
qed


lemma tag_tree_at_most_max_tags: "tag_nodes (fst (process_tags N tags)) \<le> 8192"
proof -
  have "cap_inv (fst (hc_init, None :: nat option))"
    by (simp add: cap_inv_def hc_init_def tag_nodes_def)
  from cap_inv_foldl[OF this, of N tags] show ?thesis
    by (simp add: process_tags_def cap_inv_def max_tags_def)
qed

text \<open>
  C4. The claim: the tree holds at most 8192 tag nodes (this half is
  \<open>tag_tree_at_most_max_tags\<close> above), and every input with more than 8192 tags gets
  the too-many-tags flag. The flag is set when \<open>total_tags > max_tags\<close>, but a known tag
  only increments \<open>total_tags\<close> while \<open>total_tags < max_tags\<close>: the counter stops at
  8192 and the test never succeeds unless unknown tags (id -1), which are counted
  without a bound, push it further. A document of known tags never gets the flag,
  whatever its length.
\<close>

theorem too_many_tags_flag_needs_unknown_tag:
  assumes "list_all (\<lambda>t. tag_id t \<noteq> - 1) tags"
  shows "RSPAMD_HTML_FLAG_TOO_MANY_TAGS \<notin> hc_flags (fst (process_tags N tags))
     \<and> total_tags (fst (process_tags N tags)) \<le> 8192"
proof -
  have "\<forall>t\<in>set tags. tag_id t \<noteq> - 1" using assms by (simp add: list_all_iff)
  from known_tags_foldl[OF this, of "(hc_init, None)" N] show ?thesis
    by (simp add: process_tags_def hc_init_def max_tags_def)
qed

theorem too_many_tags_flag_witness:
  "length (replicate 8193 (sample_tag 25 {CM_BLOCK, FL_BLOCK})) = 8193 \<and>
   RSPAMD_HTML_FLAG_TOO_MANY_TAGS \<notin>
     hc_flags (fst (process_tags 120 (replicate 8193 (sample_tag 25 {CM_BLOCK, FL_BLOCK}))))"
  using too_many_tags_flag_needs_unknown_tag[of "replicate 8193 (sample_tag 25 {CM_BLOCK, FL_BLOCK})" 120]
  by (simp add: sample_tag_def list_all_iff)

text \<open>
  C7. The claim: the duplicate-elements flag is set exactly when a must-appear-once
  tag occurs a second time, so that a single \<open><html>...</html>\<close> element does not get
  it. The bookkeeping of \<open>tags_seen\<close> runs for every finished tag, closing tags
  included: the closing tag of an element finds the bit its own opening tag has set.
  For the two tags of \<open><html></html>\<close>, whatever the value \<open>i\<close> of \<open>Tag_HTML\<close> below
  \<open>N_TAGS\<close>, the flag is set.
\<close>

theorem duplicate_flag_set_by_closing_tag:
  assumes "i \<noteq> - 1" and "i < N"
  shows "RSPAMD_HTML_FLAG_DUPLICATE_ELEMENTS \<in> hc_flags (fst (process_tags N
     [sample_tag i {CM_HTML, CM_OPT, CM_OMITST, CM_UNIQUE},
      sample_tag i {CM_HTML, CM_OPT, CM_OMITST, CM_UNIQUE, FL_CLOSING}]))"
  using assms
  by (simp add: process_tags_def tag_end_def rspamd_html_process_tag_def hc_init_def sample_tag_def
      process_opening_def process_closing_def attach_def max_tags_def Let_def add_flag_def
      rspamd_html_check_balance_def new_node_def find_open.simps add_tag_flag_def
      split del: if_split)

theorem duplicate_flag_set_by_closing_tag_witness:
  "RSPAMD_HTML_FLAG_DUPLICATE_ELEMENTS \<in> hc_flags (fst (process_tags 120
     [sample_tag 40 {CM_HTML, CM_OPT, CM_OMITST, CM_UNIQUE},
      sample_tag 40 {CM_HTML, CM_OPT, CM_OMITST, CM_UNIQUE, FL_CLOSING}]))"
  using duplicate_flag_set_by_closing_tag[of 40 120] by simp























section \<open>Theorems: the tag table\<close>

lemma lc_cmp_sign:
  "length a = l \<Longrightarrow> length b = l \<Longrightarrow>
   (rspamd_lc_cmp a b l < 0 \<longleftrightarrow> lcn a < lcn b) \<and> (rspamd_lc_cmp a b l > 0 \<longleftrightarrow> lcn b < lcn a)"
proof (induction a b l rule: rspamd_lc_cmp.induct)
  case (1 a s b d l)
  show ?case
  proof (cases "of_char (g_ascii_tolower a) = (of_char (g_ascii_tolower b) :: nat)")
    case True
    then show ?thesis using 1 by (simp add: lcn_def Let_def)
  next
    case False
    then show ?thesis by (auto simp: lcn_def Let_def)
  qed
qed (auto simp: lcn_def)

lemma tag_defs_len_all: "list_all (\<lambda>d. def_len d = length (def_name d) \<and> def_len d < 2 ^ 31) (tag_defs Tag)"
  by (simp add: tag_defs_def TAG_DEF_def)

lemma tag_defs_len: "d \<in> set (tag_defs Tag) \<Longrightarrow> def_len d = length (def_name d) \<and> def_len d < 2 ^ 31"
  using tag_defs_len_all[of Tag] by (auto simp: list_all_iff)

lemma tag_names_lower_all:
  "list_all (\<lambda>d. list_all (\<lambda>c. g_ascii_tolower c = c) (def_name d)) (tag_defs Tag)"
  by (simp add: tag_defs_def TAG_DEF_def g_ascii_tolower_def)

lemma tag_names_distinct: "distinct (map def_name (tag_defs Tag))"
  by (simp add: tag_defs_def TAG_DEF_def)

lemma tag_symbols_distinct: "distinct tag_symbols"
  by (simp add: tag_symbols_def)

lemma tag_defs_ids: "map def_id (tag_defs Tag) = map Tag tag_symbols"
  by (simp add: tag_defs_def TAG_DEF_def tag_symbols_def)


lemma lcn_lower: "list_all (\<lambda>c. g_ascii_tolower c = c) s \<Longrightarrow> lcn s = map of_char s"
  by (induction s) (auto simp: lcn_def)

lemma tag_key_inj:
  assumes "d \<in> set (tag_defs Tag)" and "d' \<in> set (tag_defs Tag)"
    and "lcn (def_name d) = lcn (def_name d')"
  shows "d = d'"
proof -
  have l: "lcn (def_name d) = map of_char (def_name d)" "lcn (def_name d') = map of_char (def_name d')"
    using assms(1,2) tag_names_lower_all[of Tag] by (auto simp: list_all_iff intro: lcn_lower)
  have "map (of_char :: char \<Rightarrow> nat) (def_name d) = map of_char (def_name d')"
    using assms(3) l by simp
  then have "def_name d = def_name d'"
    by (metis inj_of_char inj_map_eq_map)
  moreover have "inj_on def_name (set (tag_defs Tag))"
    using tag_names_distinct[of Tag] by (simp add: distinct_map)
  ultimately show ?thesis using assms(1,2) by (auto dest: inj_onD)
qed

lemma tag_id_inj:
  assumes "html_tags_h Tag" and "d \<in> set (tag_defs Tag)" and "d' \<in> set (tag_defs Tag)"
    and "def_id d = def_id d'"
  shows "d = d'"
proof -
  have "distinct (map Tag tag_symbols)"
    using assms(1) tag_symbols_distinct by (simp add: html_tags_h_def distinct_map)
  then have "distinct (map def_id (tag_defs Tag))" by (simp add: tag_defs_ids)
  then have "inj_on def_id (set (tag_defs Tag))" by (simp add: distinct_map)
  then show ?thesis using assms(2,3,4) by (auto dest: inj_onD)
qed

lemma tag_cmp_le:
  assumes "a \<in> set (tag_defs Tag)" and "b \<in> set (tag_defs Tag)"
  shows "(tag_cmp a b \<le> 0) = (tag_key a \<le> tag_key b)"
proof (cases "def_len a = def_len b")
  case True
  then have len: "length (def_name a) = def_len a" "length (def_name b) = def_len a"
    using tag_defs_len[OF assms(1)] tag_defs_len[OF assms(2)] by auto
  from lc_cmp_sign[OF len] have "(rspamd_lc_cmp (def_name a) (def_name b) (def_len a) \<le> 0)
      = (lcn (def_name a) \<le> lcn (def_name b))"
    by (auto simp: not_less[symmetric] simp del: not_less)
  then show ?thesis using True len by (simp add: tag_cmp_def tag_key_def)
next
  case False
  then show ?thesis
    using tag_defs_len[OF assms(1)] tag_defs_len[OF assms(2)]
    by (auto simp: tag_cmp_def tag_key_def)
qed

lemma set_tag_defs_sorted: "set (tag_defs_sorted Tag) = set (tag_defs Tag)"
  by (simp add: tag_defs_sorted_def set_qsort)

lemma set_tag_defs_num: "set (tag_defs_num Tag) = set (tag_defs Tag)"
  by (simp add: tag_defs_num_def set_qsort set_tag_defs_sorted)

lemma tag_defs_sorted_sorted: "sorted (map tag_key (tag_defs_sorted Tag))"
  unfolding tag_defs_sorted_def
  by (rule sorted_qsort) (simp add: tag_cmp_le)

lemma tag_defs_num_sorted: "sorted (map def_id (tag_defs_num Tag))"
  unfolding tag_defs_num_def
  by (rule sorted_qsort) (auto simp: tag_cmp_id_def)

lemma tag_find_sign:
  assumes "d \<in> set (tag_defs Tag)" and "length nm < 2 ^ 31"
  shows "(tag_find (key_tag nm i) d < 0 \<longleftrightarrow> length nm # lcn nm < tag_key d)
       \<and> (tag_find (key_tag nm i) d > 0 \<longleftrightarrow> tag_key d < length nm # lcn nm)"
proof (cases "def_len d = length nm")
  case True
  then have len: "length nm = length nm" "length (def_name d) = length nm"
    using tag_defs_len[OF assms(1)] by auto
  from lc_cmp_sign[OF len] True len show ?thesis
    by (simp add: tag_find_def key_tag_def tag_key_def)
next
  case False
  have dl: "def_len d = length (def_name d)" "def_len d < 2 ^ 31"
    using tag_defs_len[OF assms(1)] by auto
  have "to_gint (int (length nm) - int (def_len d)) = int (length nm) - int (def_len d)"
    using assms(2) dl by (intro to_gint_small) auto
  then show ?thesis using False dl by (auto simp: tag_find_def key_tag_def tag_key_def)
qed

lemma tag_by_name_found:
  assumes "d \<in> set (tag_defs Tag)" and "lcn nm = lcn (def_name d)"
  shows "rspamd_html_tag_by_name Tag nm = def_id d"
proof -
  have ln: "length nm = length (def_name d)"
    using assms(2) by (metis length_map lcn_def)
  have lt: "length nm < 2 ^ 31" using ln tag_defs_len[OF assms(1)] by simp
  have cmp: "\<forall>y\<in>set (tag_defs_sorted Tag).
      (tag_find (key_tag nm 0) y < 0 \<longleftrightarrow> length nm # lcn nm < tag_key y) \<and>
      (tag_find (key_tag nm 0) y > 0 \<longleftrightarrow> tag_key y < length nm # lcn nm)"
    using tag_find_sign[OF _ lt] by (simp add: set_tag_defs_sorted)
  have "d \<in> set (tag_defs_sorted Tag)" using assms(1) by (simp add: set_tag_defs_sorted)
  then obtain k where "k < length (tag_defs_sorted Tag)" "tag_defs_sorted Tag ! k = d"
    by (auto simp: in_set_conv_nth)
  then have ex: "\<exists>k. 0 \<le> k \<and> k < length (tag_defs_sorted Tag)
      \<and> tag_key (tag_defs_sorted Tag ! k) = length nm # lcn nm"
    using assms(2) ln by (auto simp: tag_key_def)
  have len: "length (tag_defs_sorted Tag) \<le> length (tag_defs_sorted Tag)" by simp
  from bsearch_loop_complete[where f = tag_key and kf = "length nm # lcn nm"
      and base = "tag_defs_sorted Tag" and u = "length (tag_defs_sorted Tag)" and l = 0
      and cmp = tag_find and key = "key_tag nm 0", OF tag_defs_sorted_sorted len cmp ex]
  obtain y where y: "bsearch tag_find (key_tag nm 0) (tag_defs_sorted Tag) = Some y"
    "y \<in> set (tag_defs Tag)" "tag_key y = length nm # lcn nm"
    by (auto simp: bsearch_def set_tag_defs_sorted)
  have "lcn (def_name y) = lcn (def_name d)" using y(3) assms(2) by (simp add: tag_key_def)
  from tag_key_inj[OF y(2) assms(1) this] y(1) show ?thesis
    by (simp add: rspamd_html_tag_by_name_def)
qed

lemma tag_by_name_absent:
  assumes "length nm < 2 ^ 31" and "\<forall>d\<in>set (tag_defs Tag). lcn (def_name d) \<noteq> lcn nm"
  shows "rspamd_html_tag_by_name Tag nm = - 1"
proof (cases "bsearch tag_find (key_tag nm 0) (tag_defs_sorted Tag)")
  case None
  then show ?thesis by (simp add: rspamd_html_tag_by_name_def)
next
  case (Some y)
  then have "bsearch_loop tag_find (key_tag nm 0) (tag_defs_sorted Tag) 0
      (length (tag_defs_sorted Tag)) = Some y" by (simp add: bsearch_def)
  from bsearch_loop_Some[OF this] have yin: "y \<in> set (tag_defs Tag)"
    and z: "tag_find (key_tag nm 0) y = 0"
    by (simp_all add: set_tag_defs_sorted)
  from tag_find_sign[OF yin assms(1), of 0] z have "tag_key y = length nm # lcn nm"
    by (metis less_irrefl linorder_neqE)
  then have "lcn (def_name y) = lcn nm" by (simp add: tag_key_def)
  with assms(2) yin show ?thesis by auto
qed

lemma tag_by_id_found:
  assumes "html_tags_h Tag" and "d \<in> set (tag_defs Tag)"
  shows "rspamd_html_tag_by_id Tag (def_id d) = Some (def_name d)"
proof -
  have cmp: "\<forall>y\<in>set (tag_defs_num Tag).
      (tag_find_id (key_tag [] (def_id d)) y < 0 \<longleftrightarrow> def_id d < def_id y) \<and>
      (tag_find_id (key_tag [] (def_id d)) y > 0 \<longleftrightarrow> def_id y < def_id d)"
    by (auto simp: tag_find_id_def key_tag_def)
  have "d \<in> set (tag_defs_num Tag)" using assms(2) by (simp add: set_tag_defs_num)
  then obtain k where "k < length (tag_defs_num Tag)" "tag_defs_num Tag ! k = d"
    by (auto simp: in_set_conv_nth)
  then have ex: "\<exists>k. 0 \<le> k \<and> k < length (tag_defs_num Tag)
      \<and> def_id (tag_defs_num Tag ! k) = def_id d" by auto
  have len: "length (tag_defs_num Tag) \<le> length (tag_defs_num Tag)" by simp
  from bsearch_loop_complete[where f = def_id and kf = "def_id d"
      and base = "tag_defs_num Tag" and u = "length (tag_defs_num Tag)" and l = 0
      and cmp = tag_find_id and key = "key_tag [] (def_id d)", OF tag_defs_num_sorted len cmp ex]
  obtain y where y: "bsearch tag_find_id (key_tag [] (def_id d)) (tag_defs_num Tag) = Some y"
    "y \<in> set (tag_defs Tag)" "def_id y = def_id d"
    by (auto simp: bsearch_def set_tag_defs_num)
  from tag_id_inj[OF assms(1) y(2) assms(2) y(3)] y(1) show ?thesis
    by (simp add: rspamd_html_tag_by_id_def)
qed

lemma tag_by_id_absent:
  assumes "\<forall>d\<in>set (tag_defs Tag). def_id d \<noteq> i"
  shows "rspamd_html_tag_by_id Tag i = None"
proof (cases "bsearch tag_find_id (key_tag [] i) (tag_defs_num Tag)")
  case None
  then show ?thesis by (simp add: rspamd_html_tag_by_id_def)
next
  case (Some y)
  then have "bsearch_loop tag_find_id (key_tag [] i) (tag_defs_num Tag) 0
      (length (tag_defs_num Tag)) = Some y" by (simp add: bsearch_def)
  from bsearch_loop_Some[OF this] have "y \<in> set (tag_defs Tag)" "tag_find_id (key_tag [] i) y = 0"
    by (simp_all add: set_tag_defs_num)
  then show ?thesis using assms by (auto simp: tag_find_id_def key_tag_def)
qed

lemma sample_Tag_inj: "inj_on sample_Tag (set tag_symbols)"
proof (rule inj_onI)
  fix x y
  assume x: "x \<in> set tag_symbols" and y: "y \<in> set tag_symbols" and e: "sample_Tag x = sample_Tag y"
  let ?n = "length (takeWhile (\<lambda>z. z \<noteq> x) tag_symbols)"
  have n: "?n = length (takeWhile (\<lambda>z. z \<noteq> y) tag_symbols)" using e by (simp add: sample_Tag_def)
  have "takeWhile (\<lambda>z. z \<noteq> x) tag_symbols \<noteq> tag_symbols" using x by auto
  then have "\<not> length tag_symbols \<le> ?n"
    using takeWhile_eq_take[of "\<lambda>z. z \<noteq> x" tag_symbols] by auto
  then have lx: "?n < length tag_symbols" by simp
  have "\<not> (tag_symbols ! ?n \<noteq> x)" using lx by (rule nth_length_takeWhile)
  moreover have "\<not> (tag_symbols ! ?n \<noteq> y)"
    using lx unfolding n by (rule nth_length_takeWhile)
  ultimately show "x = y" by simp
qed

lemma sample_Tag_range: "1 \<le> sample_Tag s \<and> sample_Tag s < 2 ^ 15"
proof -
  have "length (takeWhile (\<lambda>x. x \<noteq> s) tag_symbols) \<le> length tag_symbols"
    by (rule length_takeWhile_le)
  moreover have "length tag_symbols = 119" by (simp add: tag_symbols_def)
  ultimately show ?thesis by (simp add: sample_Tag_def)
qed

lemma sample_Tag_ok: "html_tags_h sample_Tag"
  using sample_Tag_inj sample_Tag_range
  by (auto simp: html_tags_h_def list_all_iff intro: order_trans[of 0 1])

lemma sample_Tag_DIV: "sample_Tag ''DIV'' = 26"
  by (simp add: sample_Tag_def tag_symbols_def)

lemma sample_ids_positive: "list_all (\<lambda>d. def_id d \<noteq> 0) (tag_defs sample_Tag)"
proof -
  have "sample_Tag s \<noteq> 0" for s using sample_Tag_range[of s] by simp
  then have "\<forall>i\<in>set (map def_id (tag_defs sample_Tag)). i \<noteq> 0"
    unfolding tag_defs_ids by auto
  then show ?thesis by (simp add: list_all_iff)
qed

lemma no_blah: "list_all (\<lambda>d. lcn (def_name d) \<noteq> lcn ''blah'') (tag_defs sample_Tag)"
  by (simp add: tag_defs_def TAG_DEF_def lcn_def g_ascii_tolower_def)


text \<open>
  C10. After the sorting of \<open>rspamd_html_library_init\<close> the two lookups are inverse
  to each other over the table, for every enumeration \<open>Tag\<close> that C could declare:
  the name of every entry is found with the entry's id and the id with the entry's
  name; a name is matched without regard to case, by length and then by lowered
  bytes; a name that no entry matches gives -1 and an id that no entry has gives
  \<open>NULL\<close>. A name is shorter than \<open>2 ^ 31\<close> bytes, so that the unsigned difference of
  two lengths keeps its sign as a \<open>gint\<close>.
\<close>

theorem tag_lookups_inverse:
  assumes "html_tags_h Tag"
  shows "list_all (\<lambda>d. rspamd_html_tag_by_name Tag (def_name d) = def_id d
            \<and> rspamd_html_tag_by_id Tag (def_id d) = Some (def_name d)) (tag_defs Tag)
     \<and> (\<forall>nm d. d \<in> set (tag_defs Tag) \<and> lcn nm = lcn (def_name d)
            \<longrightarrow> rspamd_html_tag_by_name Tag nm = def_id d)
     \<and> (\<forall>nm. length nm < 2 ^ 31 \<and> list_all (\<lambda>d. lcn (def_name d) \<noteq> lcn nm) (tag_defs Tag)
            \<longrightarrow> rspamd_html_tag_by_name Tag nm = - 1)
     \<and> (\<forall>i. list_all (\<lambda>d. def_id d \<noteq> i) (tag_defs Tag) \<longrightarrow> rspamd_html_tag_by_id Tag i = None)"
proof (intro conjI allI impI)
  show "list_all (\<lambda>d. rspamd_html_tag_by_name Tag (def_name d) = def_id d
            \<and> rspamd_html_tag_by_id Tag (def_id d) = Some (def_name d)) (tag_defs Tag)"
    unfolding list_all_iff
    using tag_by_name_found[of _ Tag] tag_by_id_found[OF assms] by blast
next
  fix nm d
  assume "d \<in> set (tag_defs Tag) \<and> lcn nm = lcn (def_name d)"
  then show "rspamd_html_tag_by_name Tag nm = def_id d"
    using tag_by_name_found by blast
next
  fix nm
  assume "length nm < 2 ^ 31 \<and> list_all (\<lambda>d. lcn (def_name d) \<noteq> lcn nm) (tag_defs Tag)"
  then show "rspamd_html_tag_by_name Tag nm = - 1"
    using tag_by_name_absent[of nm Tag] by (simp add: list_all_iff)
next
  fix i
  assume "list_all (\<lambda>d. def_id d \<noteq> i) (tag_defs Tag)"
  then show "rspamd_html_tag_by_id Tag i = None"
    using tag_by_id_absent[of Tag i] by (simp add: list_all_iff)
qed


theorem tag_lookups_inverse_witness:
  "rspamd_html_tag_by_name sample_Tag ''div'' = 26
   \<and> rspamd_html_tag_by_id sample_Tag 26 = Some ''div''
   \<and> rspamd_html_tag_by_name sample_Tag ''DiV'' = 26
   \<and> rspamd_html_tag_by_name sample_Tag ''blah'' = - 1
   \<and> rspamd_html_tag_by_id sample_Tag 0 = None"
proof -
  note t = tag_lookups_inverse[OF sample_Tag_ok]
  have d: "TAG_DEF 26 ''div'' {CM_BLOCK, FL_BLOCK} \<in> set (tag_defs sample_Tag)"
    by (simp add: tag_defs_def sample_Tag_DIV)
  have sel: "def_name (TAG_DEF 26 ''div'' {CM_BLOCK, FL_BLOCK}) = ''div''"
    "def_id (TAG_DEF 26 ''div'' {CM_BLOCK, FL_BLOCK}) = 26"
    by (simp_all add: TAG_DEF_def)
  have a: "rspamd_html_tag_by_name sample_Tag ''div'' = 26
      \<and> rspamd_html_tag_by_id sample_Tag 26 = Some ''div''"
    using t d sel unfolding list_all_iff by fastforce
  have "lcn ''DiV'' = lcn (def_name (TAG_DEF 26 ''div'' {CM_BLOCK, FL_BLOCK}))"
    by (simp add: sel lcn_def g_ascii_tolower_def char_of_def bit_Suc_0_iff)
  then have b: "rspamd_html_tag_by_name sample_Tag ''DiV'' = 26"
    using t d sel(2) by metis
  have c: "rspamd_html_tag_by_name sample_Tag ''blah'' = - 1"
    using t no_blah by simp
  have e: "rspamd_html_tag_by_id sample_Tag 0 = None"
    using t sample_ids_positive by simp
  show ?thesis using a b c e by simp
qed

section \<open>Theorems: colours\<close>

lemma strtoul_000000: "strtoul ''000000'' 16 = (0, 6)"
  by (simp add: strtoul_eval split del: if_split)

lemma strtoul_ff0000: "strtoul ''ff0000'' 16 = (16711680, 6)"
  by (simp add: strtoul_eval split del: if_split)

lemma process_color_000000:
  "rspamd_html_process_color names f ''#000000'' = \<lparr>d_val = 0, valid = True\<rparr>"
  by (simp add: rspamd_html_process_color_def strtoul_000000 NUL_def split del: if_split)

lemma process_color_ff0000:
  "rspamd_html_process_color names f ''#ff0000'' = \<lparr>d_val = 16711680, valid = True\<rparr>"
  by (simp add: rspamd_html_process_color_def strtoul_ff0000 NUL_def split del: if_split)

lemma set_comp_alpha: "comp_alpha \<lparr>d_val = set_comp a r g b, valid = v\<rparr> = a mod 256"
proof -
  have "(r mod 256) * 2 ^ 16 + (g mod 256) * 2 ^ 8 + b mod 256 < 2 ^ 24"
  proof -
    have "r mod 256 \<le> 255" "g mod 256 \<le> 255" "b mod 256 \<le> 255" by simp_all
    then have "(r mod 256) * 2 ^ 16 \<le> 255 * 2 ^ 16" "(g mod 256) * 2 ^ 8 \<le> 255 * 2 ^ 8"
      by simp_all
    then show ?thesis using \<open>b mod 256 \<le> 255\<close> by simp
  qed
  then have "set_comp a r g b div 2 ^ 24 = a mod 256"
    by (simp add: set_comp_def add.assoc)
  then show ?thesis by (simp add: comp_alpha_def)
qed

lemma named_colors_opaque:
  "html_colors_hash names key = Some el \<Longrightarrow> valid el \<and> comp_alpha el = 255"
proof (induction names key rule: html_colors_hash.induct)
  case (1 key)
  then show ?case by simp
next
  case (2 n r g b rest key)
  then show ?case
    by (auto simp: named_color_def set_comp_alpha split: option.splits if_splits)
qed

lemma default_font_color_opaque: "valid default_font_color \<and> comp_alpha default_font_color = 255"
  by (simp add: default_font_color_def set_comp_alpha)

text \<open>
  C8. The claim: every valid colour value that the HTML core produces, whether it comes
  from a colour name, from the \<open>#rrggbb\<close> form, from the \<open>rgb()\<close> form or from the default
  background of the document, is stored with the alpha component 255. The colours of the
  name table are stored with alpha 255 (\<open>named_colors_opaque\<close>) and so is the black font
  colour of last resort (\<open>default_font_color_opaque\<close>), but the hexadecimal branch
  stores the value of \<open>strtoul\<close> into the whole word after the \<open>memset\<close> and never sets
  the alpha byte: \<open>#000000\<close> and \<open>#ff0000\<close> come out valid with alpha 0. The default
  background of the document is valid with alpha 0 as well.
\<close>

theorem hex_and_default_colors_have_alpha_zero:
  "valid (rspamd_html_process_color names f ''#000000'')
   \<and> comp_alpha (rspamd_html_process_color names f ''#000000'') = 0
   \<and> valid (rspamd_html_process_color names f ''#ff0000'')
   \<and> comp_alpha (rspamd_html_process_color names f ''#ff0000'') = 0
   \<and> valid default_bgcolor \<and> comp_alpha default_bgcolor = 0"
  by (simp add: process_color_000000 process_color_ff0000 comp_alpha_def default_bgcolor_def
      set_comp_def)

section \<open>Theorems: URLs of tags\<close>




section \<open>Theorems: phishing\<close>

lemma is_subdomain_evil: "rspamd_url_is_subdomain ''evil.co.uk'' ''xo.uk''"
  by (simp add: rspamd_url_is_subdomain_def skip_dots.simps cmp_back.simps dot_before_def Let_def)

lemma has_xn_evil: "\<not> has_xn ''evil.co.uk''" "\<not> has_xn ''xo.uk''"
  by (simp_all add: g_ascii_tolower_def)

lemma compare_urls_phished:
  "(RSPAMD_URL_FLAG_PHISHED \<in> url_flags (ph_href (compare_urls idna href_url text_url))) =
   (RSPAMD_URL_FLAG_PHISHED \<in> url_flags href_url \<or>
    (let d1 = idn_token idna False (host text_url);
         h1 = idn_token idna (fst d1) (host href_url);
         d2 = idn_token idna (fst h1) (tld text_url);
         h2 = idn_token idna (fst d2) (tld href_url)
     in rspamd_ftok_casecmp (snd d1) (snd h1) \<noteq> 0
        \<and> rspamd_ftok_casecmp (snd d2) (snd h2) \<noteq> 0
        \<and> \<not> rspamd_url_is_subdomain (snd d2) (snd h2)))"
  by (simp add: compare_urls_def Let_def)

lemma idn_token_evil:
  "idn_token idna e ''evil.co.uk'' = (e, ''evil.co.uk'')"
  "idn_token idna e ''xo.uk'' = (e, ''xo.uk'')"
  by (simp_all add: idn_token_def has_xn_evil del: has_xn.simps)

lemma casecmp_evil: "rspamd_ftok_casecmp ''evil.co.uk'' ''xo.uk'' \<noteq> 0"
  by (simp add: rspamd_ftok_casecmp_def)

lemma compare_urls_evil:
  "host t = ''evil.co.uk'' \<Longrightarrow> tld t = ''evil.co.uk'' \<Longrightarrow> host h = ''xo.uk'' \<Longrightarrow> tld h = ''xo.uk''
   \<Longrightarrow> compare_urls idna h t =
     \<lparr>ph_href = h, ph_phished_url = None, ph_url_found = True, ph_text_url = Some t\<rparr>"
  by (simp add: compare_urls_def idn_token_evil is_subdomain_evil Let_def del: has_xn.simps)

text \<open>
  C1. The claim: if the two hosts differ, the two TLDs differ and neither TLD is a
  dot-bounded suffix of the other, the target URL receives the phished flag. The last loop
  of \<open>rspamd_url_is_subdomain\<close> stops as soon as one of the two pointers reaches the first
  byte of its token and that byte is never compared: \<open>xo.uk\<close> counts as a relative
  of \<open>evil.co.uk\<close> because \<open>o.uk\<close> matches and a dot stands before the \<open>c\<close>. For an
  anchor with the target \<open>http://xo.uk\<close> and the text \<open>http://evil.co.uk\<close>, where host and
  TLD of the text are \<open>evil.co.uk\<close> and those of the target are \<open>xo.uk\<close>, the displayed URL
  is found, hosts and TLDs differ, neither is a suffix of the other, and the target is
  not flagged.
\<close>

theorem phished_flag_missed_by_subdomain_test:
  "rspamd_url_is_subdomain ''evil.co.uk'' ''xo.uk''
   \<and> ph_url_found (rspamd_html_url_is_phished (\<lambda>t. Some (t, 0))
        (\<lambda>u s. Some (u\<lparr>url_string := s, host := ''evil.co.uk'', tld := ''evil.co.uk''\<rparr>))
        (\<lambda>s. None)
        (url_alloc0\<lparr>url_string := ''http://xo.uk'', host := ''xo.uk'', tld := ''xo.uk''\<rparr>)
        ''http://evil.co.uk'')
   \<and> RSPAMD_URL_FLAG_PHISHED \<notin> url_flags (ph_href (rspamd_html_url_is_phished (\<lambda>t. Some (t, 0))
        (\<lambda>u s. Some (u\<lparr>url_string := s, host := ''evil.co.uk'', tld := ''evil.co.uk''\<rparr>))
        (\<lambda>s. None)
        (url_alloc0\<lparr>url_string := ''http://xo.uk'', host := ''xo.uk'', tld := ''xo.uk''\<rparr>)
        ''http://evil.co.uk''))"
  by (simp add: rspamd_html_url_is_phished_def compare_urls_evil
      is_subdomain_evil url_alloc0_def g_ascii_isspace_def Let_def
      del: has_xn.simps split del: if_split)

end
